theory Spec2Isabelle
  imports Main "HOL-Library.Multiset" "HOL-Library.Sublist"
begin

section \<open>Data model\<close>

text \<open>
  The development embeds \<^verbatim>\<open>pkg/services/accesscontrol/acimpl/service.go\<close>.
  A Go function returning \<^verbatim>\<open>(value, error)\<close> is a function returning the pair
  \<open>(value, error option)\<close>: \<open>None\<close> is the \<^verbatim>\<open>nil\<close> error, and a \<^verbatim>\<open>nil\<close> slice or
  map is the empty list or the empty map. Identifiers (\<^verbatim>\<open>int64\<close>) are \<open>int\<close>; the only
  place where their range matters is \<open>ParseInt\<close>, which checks it. Tracing spans,
  timers and metric counters do not influence any returned value and are left out.
\<close>

datatype error =
    ErrRoleNotFound
  | ErrNamespacedIDNotSpecified
  | ErrNoBasicRoles int int
  | ErrFetchBasicRoles error
  | NumError string
  | CollaboratorError string

record Permission =
  Action :: string
  Scope :: string

record RoleDTO =
  Name :: string
  DisplayName :: string
  Description :: string
  Permissions :: "Permission list"

record RoleRegistration =
  Role :: RoleDTO
  Grants :: "string list"

text \<open>
  \<^verbatim>\<open>identity.Requester\<close> is an interface; a requester is the record of what its
  methods return. \<open>GetOrgRoles\<close> is the result of \<^verbatim>\<open>accesscontrol.GetOrgRoles(user)\<close>,
  \<open>GetPermissions\<close> is the map \<^verbatim>\<open>map[string][]string\<close> as its list of entries.
\<close>

record Requester =
  GetOrgID :: int
  GetNamespacedID :: "string \<times> string"
  GetOrgRoles :: "string list"
  GetTeams :: "int list"
  GetPermissions :: "(string \<times> string list) list"
  HasUniqueId :: bool

record Options =
  ReloadCache :: bool

record GetUserPermissionsQuery =
  OrgID :: int
  UserID :: int
  Roles :: "string list"
  TeamIDs :: "int list"
  RolePrefixes :: "string list"

text \<open>
  \<^verbatim>\<open>accesscontrol.SearchOptions\<close>: the fields \<^verbatim>\<open>Action\<close>, \<^verbatim>\<open>Scope\<close> and
  \<^verbatim>\<open>RolePrefixes\<close> carry the prefix \<open>opt_\<close>, since the names are taken by the
  permission and the query.
\<close>

record SearchOptions =
  ActionPrefix :: string
  opt_Action :: string
  opt_Scope :: string
  NamespacedID :: string
  opt_RolePrefixes :: "string list"

text \<open>
  \<^verbatim>\<open>accesscontrol.Store\<close> is an interface owned by another package. The service only
  reads through the five methods below, so a store is the record of its answers; a
  Go map it returns is the list of the map's entries, in the order in which the
  caller's \<^verbatim>\<open>range\<close> enumerates them.
\<close>

record Store =
  Store_GetUserPermissions :: "GetUserPermissionsQuery \<Rightarrow> Permission list \<times> error option"
  Store_GetBasicRolesPermissions :: "GetUserPermissionsQuery \<Rightarrow> Permission list \<times> error option"
  Store_GetTeamsPermissions ::
    "GetUserPermissionsQuery \<Rightarrow> (int \<times> Permission list) list \<times> error option"
  Store_GetUsersBasicRoles :: "int list \<Rightarrow> int \<Rightarrow> (int \<times> string list) list \<times> error option"
  Store_SearchUsersPermissions ::
    "int \<Rightarrow> SearchOptions \<Rightarrow> (int \<times> Permission list) list \<times> error option"

datatype StoreCall =
    CallGetUserPermissions GetUserPermissionsQuery
  | CallGetBasicRolesPermissions GetUserPermissionsQuery
  | CallGetTeamsPermissions GetUserPermissionsQuery
  | CallGetUsersBasicRoles "int list" int
  | CallSearchUsersPermissions int SearchOptions

datatype Flag = FlagNestedFolders | FlagAccessControlOnCall | FlagExternalServiceAccounts

text \<open>
  Constants and helpers of other packages that \<^verbatim>\<open>service.go\<close> uses and that are
  declared elsewhere; they are parameters of every definition below.
  \<open>ScopeSharedWithMeFolder\<close> is the value of
  \<^verbatim>\<open>dashboards.ScopeFoldersProvider.GetResourceScopeUID(folder.SharedWithMeFolderUID)\<close>,
  \<open>Wildcards\<close> and \<open>ComputeUserID\<close> are the methods of the search options, and
  \<open>SignedInUser userID orgID\<close> is the requester
  \<^verbatim>\<open>&user.SignedInUser{UserID: userID, OrgID: orgID}\<close>.
\<close>

record Deps =
  ActionFoldersRead :: string
  ScopeSharedWithMeFolder :: string
  ManagedRolePrefix :: string
  ExternalServiceRolePrefix :: string
  ActionUsersPermissionsRead :: string
  NamespaceUser :: string
  NamespaceServiceAccount :: string
  UserIdentifier :: "string \<times> string \<Rightarrow> int \<times> error option"
  GetPermissionCacheKey :: "Requester \<Rightarrow> string"
  GetUserDirectPermissionCacheKey :: "Requester \<Rightarrow> string"
  GetBasicRolePermissionCacheKey :: "string \<Rightarrow> int \<Rightarrow> string"
  GetTeamPermissionCacheKey :: "int \<Rightarrow> int \<Rightarrow> string"
  Wildcards :: "SearchOptions \<Rightarrow> string list"
  ComputeUserID :: "SearchOptions \<Rightarrow> int \<times> error option"
  SignedInUser :: "int \<Rightarrow> int \<Rightarrow> Requester"

text \<open>
  The \<^verbatim>\<open>Service\<close> struct without its logger and tracer. The cache it points to is
  mutable and lives in the state below.
\<close>

record Service =
  RBACPermissionCache :: bool
  features :: "Flag \<Rightarrow> bool"
  registrations :: "RoleRegistration list"
  roles :: "string \<rightharpoonup> RoleDTO"
  store :: Store

text \<open>
  Modelled from the spec: \<^verbatim>\<open>localcache.CacheService\<close> is declared in another
  package; it is a key/value store with \<^verbatim>\<open>Get(key)\<close> returning the value and
  whether it was found, \<^verbatim>\<open>Set(key, value, ttl)\<close> and \<^verbatim>\<open>Delete(key)\<close>. The cache
  is a map from the key to the value and the TTL it was stored with; expiry needs a
  clock, and no time passes inside a call. The state a call can change is this cache
  together with the log of the Store calls made so far, in order.
\<close>

record state =
  cache :: "string \<rightharpoonup> Permission list \<times> int"
  calls :: "StoreCall list"

type_synonym GetPermissionsFn = "state \<Rightarrow> (Permission list \<times> error option) \<times> state"

section \<open>Go library functions\<close>

definition HasPrefix :: "string \<Rightarrow> string \<Rightarrow> bool" where
  "HasPrefix s pre = (length pre \<le> length s \<and> take (length pre) s = pre)"

definition HasSuffix :: "string \<Rightarrow> string \<Rightarrow> bool" where
  "HasSuffix s suf = (length suf \<le> length s \<and> drop (length s - length suf) s = suf)"

text \<open>\<^verbatim>\<open>strings.Split(s, sep)\<close> for a separator of one character.\<close>

fun Split :: "string \<Rightarrow> char \<Rightarrow> string list" where
  "Split [] sep = [[]]"
| "Split (c # cs) sep =
     (if c = sep then [] # Split cs sep
      else (case Split cs sep of p # ps \<Rightarrow> (c # p) # ps | [] \<Rightarrow> [[c]]))"

definition digit_of :: "char \<Rightarrow> nat option" where
  "digit_of c =
     (let n = (of_char c :: nat) in if 48 \<le> n \<and> n \<le> 57 then Some (n - 48) else None)"

fun parse_digits :: "string \<Rightarrow> nat \<Rightarrow> nat option" where
  "parse_digits [] acc = Some acc"
| "parse_digits (c # cs) acc =
     (case digit_of c of None \<Rightarrow> None | Some v \<Rightarrow> parse_digits cs (acc * 10 + v))"

text \<open>
  \<^verbatim>\<open>strconv.ParseInt(s, 10, 64)\<close>: an optional sign, then at least one decimal digit
  and nothing else, which is a syntax error returned with the value 0 otherwise; a
  value outside the range of \<^verbatim>\<open>int64\<close> is a range error returned with the nearest
  bound of the range.
\<close>

definition ParseInt :: "string \<Rightarrow> int \<times> error option" where
  "ParseInt s =
     (let (neg, ds) =
        (case s of
           [] \<Rightarrow> (False, s)
         | c # cs \<Rightarrow>
             if c = CHR ''+'' then (False, cs)
             else if c = CHR ''-'' then (True, cs)
             else (False, s))
      in if ds = [] then (0, Some (NumError s))
         else (case parse_digits ds 0 of
                 None \<Rightarrow> (0, Some (NumError s))
               | Some n \<Rightarrow>
                   (let v = (if neg then - int n else int n)
                    in if - (2 ^ 63) \<le> v \<and> v < 2 ^ 63 then (v, None)
                       else (if neg then - (2 ^ 63) else 2 ^ 63 - 1, Some (NumError s)))))"

section \<open>The service\<close>

definition cacheTTL :: int where
  "cacheTTL = 60 * 1000000000"

definition SharedWithMeFolderPermission :: "Deps \<Rightarrow> Permission" where
  "SharedWithMeFolderPermission d =
     \<lparr>Action = ActionFoldersRead d, Scope = ScopeSharedWithMeFolder d\<rparr>"

definition OSSRolesPrefixes :: "Deps \<Rightarrow> string list" where
  "OSSRolesPrefixes d = [ManagedRolePrefix d, ExternalServiceRolePrefix d]"

definition log_call :: "StoreCall \<Rightarrow> state \<Rightarrow> state" where
  "log_call c st = st\<lparr>calls := calls st @ [c]\<rparr>"

definition cache_Set :: "string \<Rightarrow> Permission list \<Rightarrow> int \<Rightarrow> state \<Rightarrow> state" where
  "cache_Set key v ttl st = st\<lparr>cache := (cache st)(key \<mapsto> (v, ttl))\<rparr>"

definition cache_Delete :: "string \<Rightarrow> state \<Rightarrow> state" where
  "cache_Delete key st = st\<lparr>cache := (cache st)(key := None)\<rparr>"

subsection \<open>Search predicate\<close>

definition PermissionMatchesSearchOptions :: "Deps \<Rightarrow> Permission \<Rightarrow> SearchOptions \<Rightarrow> bool" where
  "PermissionMatchesSearchOptions d permission searchOptions =
     (if opt_Scope searchOptions \<noteq> [] \<and>
         Scope permission \<notin> set (Wildcards d searchOptions @ [opt_Scope searchOptions])
      then False
      else if opt_Action searchOptions \<noteq> []
        then Action permission = opt_Action searchOptions
        else HasPrefix (Action permission) (ActionPrefix searchOptions))"

subsection \<open>Store access\<close>

text \<open>Every Store method the service calls is logged; the Store itself is only read.\<close>

definition store_GetUserPermissions ::
  "Service \<Rightarrow> GetUserPermissionsQuery \<Rightarrow> state \<Rightarrow> (Permission list \<times> error option) \<times> state" where
  "store_GetUserPermissions s q st =
     (Store_GetUserPermissions (store s) q, log_call (CallGetUserPermissions q) st)"

definition store_GetBasicRolesPermissions ::
  "Service \<Rightarrow> GetUserPermissionsQuery \<Rightarrow> state \<Rightarrow> (Permission list \<times> error option) \<times> state" where
  "store_GetBasicRolesPermissions s q st =
     (Store_GetBasicRolesPermissions (store s) q, log_call (CallGetBasicRolesPermissions q) st)"

definition store_GetTeamsPermissions ::
  "Service \<Rightarrow> GetUserPermissionsQuery \<Rightarrow> state \<Rightarrow>
     ((int \<times> Permission list) list \<times> error option) \<times> state" where
  "store_GetTeamsPermissions s q st =
     (Store_GetTeamsPermissions (store s) q, log_call (CallGetTeamsPermissions q) st)"

definition store_GetUsersBasicRoles ::
  "Service \<Rightarrow> int list \<Rightarrow> int \<Rightarrow> state \<Rightarrow> ((int \<times> string list) list \<times> error option) \<times> state" where
  "store_GetUsersBasicRoles s userFilter orgID st =
     (Store_GetUsersBasicRoles (store s) userFilter orgID,
      log_call (CallGetUsersBasicRoles userFilter orgID) st)"

definition store_SearchUsersPermissions ::
  "Service \<Rightarrow> int \<Rightarrow> SearchOptions \<Rightarrow> state \<Rightarrow>
     ((int \<times> Permission list) list \<times> error option) \<times> state" where
  "store_SearchUsersPermissions s orgID options st =
     (Store_SearchUsersPermissions (store s) orgID options,
      log_call (CallSearchUsersPermissions orgID options) st)"

subsection \<open>Uncached resolution\<close>

text \<open>The loop over \<^verbatim>\<open>accesscontrol.GetOrgRoles(user)\<close> in \<^verbatim>\<open>getUserPermissions\<close>.\<close>

fun appendBasicRoles ::
  "(string \<rightharpoonup> RoleDTO) \<Rightarrow> string list \<Rightarrow> Permission list \<Rightarrow> Permission list" where
  "appendBasicRoles rs [] permissions = permissions"
| "appendBasicRoles rs (builtin # rest) permissions =
     (case rs builtin of
        Some basicRole \<Rightarrow> appendBasicRoles rs rest (permissions @ Permissions basicRole)
      | None \<Rightarrow> appendBasicRoles rs rest permissions)"

definition getUserPermissions ::
  "Deps \<Rightarrow> Service \<Rightarrow> Requester \<Rightarrow> Options \<Rightarrow> state \<Rightarrow> (Permission list \<times> error option) \<times> state" where
  "getUserPermissions d s user options st =
     (let permissions = appendBasicRoles (roles s) (GetOrgRoles user) [];
          permissions =
            (if features s FlagNestedFolders
             then permissions @ [SharedWithMeFolderPermission d] else permissions)
      in case UserIdentifier d (GetNamespacedID user) of
           (userID, Some err) \<Rightarrow> (([], Some err), st)
         | (userID, None) \<Rightarrow>
             (case store_GetUserPermissions s
                     \<lparr>OrgID = GetOrgID user, UserID = userID, Roles = GetOrgRoles user,
                      TeamIDs = GetTeams user, RolePrefixes = OSSRolesPrefixes d\<rparr> st of
                ((dbPermissions, Some err), st') \<Rightarrow> (([], Some err), st')
              | ((dbPermissions, None), st') \<Rightarrow> ((permissions @ dbPermissions, None), st')))"

subsection \<open>Producers of the cached sub-queries\<close>

text \<open>
  \<^verbatim>\<open>getBasicRolePermissions\<close> appends what the Store returned and hands the Store's
  error on together with the list, without looking at it.
\<close>

definition getBasicRolePermissions ::
  "Deps \<Rightarrow> Service \<Rightarrow> string \<Rightarrow> int \<Rightarrow> state \<Rightarrow> (Permission list \<times> error option) \<times> state" where
  "getBasicRolePermissions d s role orgID st =
     (let permissions =
            (case roles s role of Some basicRole \<Rightarrow> Permissions basicRole | None \<Rightarrow> [])
      in case store_GetBasicRolesPermissions s
                \<lparr>OrgID = orgID, UserID = 0, Roles = [role], TeamIDs = [],
                 RolePrefixes = OSSRolesPrefixes d\<rparr> st of
           ((dbPermissions, err), st') \<Rightarrow> ((permissions @ dbPermissions, err), st'))"

definition getTeamsPermissions ::
  "Deps \<Rightarrow> Service \<Rightarrow> int list \<Rightarrow> int \<Rightarrow> state \<Rightarrow>
     ((int \<times> Permission list) list \<times> error option) \<times> state" where
  "getTeamsPermissions d s teamIDs orgID st =
     store_GetTeamsPermissions s
       \<lparr>OrgID = orgID, UserID = 0, Roles = [], TeamIDs = teamIDs,
        RolePrefixes = OSSRolesPrefixes d\<rparr> st"

definition getUserDirectPermissions ::
  "Deps \<Rightarrow> Service \<Rightarrow> Requester \<Rightarrow> state \<Rightarrow> (Permission list \<times> error option) \<times> state" where
  "getUserDirectPermissions d s user st =
     (case GetNamespacedID user of
        (namespace, identifier) \<Rightarrow>
          (case (if namespace = NamespaceUser d \<or> namespace = NamespaceServiceAccount d
                 then ParseInt identifier else (0, None)) of
             (userID, Some err) \<Rightarrow> (([], Some err), st)
           | (userID, None) \<Rightarrow>
               (case store_GetUserPermissions s
                       \<lparr>OrgID = GetOrgID user, UserID = userID, Roles = [], TeamIDs = [],
                        RolePrefixes = OSSRolesPrefixes d\<rparr> st of
                  ((permissions, Some err), st') \<Rightarrow> (([], Some err), st')
                | ((permissions, None), st') \<Rightarrow>
                    ((if features s FlagNestedFolders
                      then permissions @ [SharedWithMeFolderPermission d] else permissions,
                      None), st'))))"

subsection \<open>Cached resolution\<close>

definition getCachedPermissions ::
  "string \<Rightarrow> GetPermissionsFn \<Rightarrow> Options \<Rightarrow> state \<Rightarrow> (Permission list \<times> error option) \<times> state" where
  "getCachedPermissions key getPermissionsFn options st =
     (case (if \<not> ReloadCache options then cache st key else None) of
        Some (permissions, ttl) \<Rightarrow> ((permissions, None), st)
      | None \<Rightarrow>
          (case getPermissionsFn st of
             ((permissions, Some err), st') \<Rightarrow> (([], Some err), st')
           | ((permissions, None), st') \<Rightarrow>
               ((permissions, None), cache_Set key permissions cacheTTL st')))"

definition getCachedBasicRolePermissions ::
  "Deps \<Rightarrow> Service \<Rightarrow> string \<Rightarrow> int \<Rightarrow> Options \<Rightarrow> state \<Rightarrow>
     (Permission list \<times> error option) \<times> state" where
  "getCachedBasicRolePermissions d s role orgID options st =
     getCachedPermissions (GetBasicRolePermissionCacheKey d role orgID)
       (getBasicRolePermissions d s role orgID) options st"

definition getCachedUserDirectPermissions ::
  "Deps \<Rightarrow> Service \<Rightarrow> Requester \<Rightarrow> Options \<Rightarrow> state \<Rightarrow>
     (Permission list \<times> error option) \<times> state" where
  "getCachedUserDirectPermissions d s user options st =
     getCachedPermissions (GetUserDirectPermissionCacheKey d user)
       (getUserDirectPermissions d s user) options st"

text \<open>The loop of \<^verbatim>\<open>getCachedBasicRolesPermissions\<close> over the principal's basic roles.\<close>

fun basicRolesLoop ::
  "Deps \<Rightarrow> Service \<Rightarrow> int \<Rightarrow> Options \<Rightarrow> string list \<Rightarrow> Permission list \<Rightarrow> state \<Rightarrow>
     (Permission list \<times> error option) \<times> state" where
  "basicRolesLoop d s orgID options [] basicRolesPermissions st =
     ((basicRolesPermissions, None), st)"
| "basicRolesLoop d s orgID options (role # rest) basicRolesPermissions st =
     (case getCachedBasicRolePermissions d s role orgID options st of
        ((permissions, Some err), st') \<Rightarrow> (([], Some err), st')
      | ((permissions, None), st') \<Rightarrow>
          basicRolesLoop d s orgID options rest (basicRolesPermissions @ permissions) st')"

definition getCachedBasicRolesPermissions ::
  "Deps \<Rightarrow> Service \<Rightarrow> Requester \<Rightarrow> Options \<Rightarrow> state \<Rightarrow>
     (Permission list \<times> error option) \<times> state" where
  "getCachedBasicRolesPermissions d s user options st =
     basicRolesLoop d s (GetOrgID user) options (GetOrgRoles user) [] st"

text \<open>
  \<^verbatim>\<open>getCachedTeamsPermissions\<close>: the first loop reads the cache once per team id and
  collects the ids that missed; the second loop writes every entry of the Store's
  answer back under the key of its team id.
\<close>

fun collectTeams ::
  "Deps \<Rightarrow> int \<Rightarrow> (string \<rightharpoonup> Permission list \<times> int) \<Rightarrow> int list \<Rightarrow>
     Permission list \<Rightarrow> int list \<Rightarrow> Permission list \<times> int list" where
  "collectTeams d orgID c [] permissions miss = (permissions, miss)"
| "collectTeams d orgID c (teamID # rest) permissions miss =
     (case c (GetTeamPermissionCacheKey d teamID orgID) of
        Some (teamPermissions, ttl) \<Rightarrow>
          collectTeams d orgID c rest (permissions @ teamPermissions) miss
      | None \<Rightarrow> collectTeams d orgID c rest permissions (miss @ [teamID]))"

fun writeBackTeams ::
  "Deps \<Rightarrow> int \<Rightarrow> (int \<times> Permission list) list \<Rightarrow> Permission list \<Rightarrow> state \<Rightarrow>
     Permission list \<times> state" where
  "writeBackTeams d orgID [] permissions st = (permissions, st)"
| "writeBackTeams d orgID ((teamID, teamPermissions) # rest) permissions st =
     writeBackTeams d orgID rest (permissions @ teamPermissions)
       (cache_Set (GetTeamPermissionCacheKey d teamID orgID) teamPermissions cacheTTL st)"

definition getCachedTeamsPermissions ::
  "Deps \<Rightarrow> Service \<Rightarrow> Requester \<Rightarrow> Options \<Rightarrow> state \<Rightarrow>
     (Permission list \<times> error option) \<times> state" where
  "getCachedTeamsPermissions d s user options st =
     (let teams = GetTeams user;
          orgID = GetOrgID user
      in case (if \<not> ReloadCache options
               then collectTeams d orgID (cache st) teams [] []
               else ([], teams)) of
           (permissions, miss) \<Rightarrow>
             if length miss > 0
             then (case getTeamsPermissions d s miss orgID st of
                     ((teamsPermissions, Some err), st') \<Rightarrow> (([], Some err), st')
                   | ((teamsPermissions, None), st') \<Rightarrow>
                       (case writeBackTeams d orgID teamsPermissions permissions st' of
                          (permissions', st'') \<Rightarrow> ((permissions', None), st'')))
             else ((permissions, None), st))"

definition getCachedUserPermissions ::
  "Deps \<Rightarrow> Service \<Rightarrow> Requester \<Rightarrow> Options \<Rightarrow> state \<Rightarrow>
     (Permission list \<times> error option) \<times> state" where
  "getCachedUserPermissions d s user options st =
     (case getCachedBasicRolesPermissions d s user options st of
        ((basicRolesPermissions, Some err), st1) \<Rightarrow> (([], Some err), st1)
      | ((basicRolesPermissions, None), st1) \<Rightarrow>
          (case getCachedTeamsPermissions d s user options st1 of
             ((teamsPermissions, Some err), st2) \<Rightarrow> (([], Some err), st2)
           | ((teamsPermissions, None), st2) \<Rightarrow>
               (case getCachedUserDirectPermissions d s user options st2 of
                  ((userPermissions, Some err), st3) \<Rightarrow> (([], Some err), st3)
                | ((userPermissions, None), st3) \<Rightarrow>
                    ((basicRolesPermissions @ teamsPermissions @ userPermissions, None),
                     st3))))"

definition GetUserPermissions ::
  "Deps \<Rightarrow> Service \<Rightarrow> Requester \<Rightarrow> Options \<Rightarrow> state \<Rightarrow>
     (Permission list \<times> error option) \<times> state" where
  "GetUserPermissions d s user options st =
     (if \<not> RBACPermissionCache s \<or> \<not> HasUniqueId user
      then getUserPermissions d s user options st
      else getCachedUserPermissions d s user options st)"

definition ClearUserPermissionCache :: "Deps \<Rightarrow> Requester \<Rightarrow> state \<Rightarrow> state" where
  "ClearUserPermissionCache d user st =
     cache_Delete (GetUserDirectPermissionCacheKey d user)
       (cache_Delete (GetPermissionCacheKey d user) st)"

subsection \<open>Search\<close>

text \<open>
  The loop of \<^verbatim>\<open>searchUserPermissions\<close> over the user's basic roles, keeping the
  permissions of each known role that match the search options.
\<close>

fun appendMatchingBasicRoles ::
  "Deps \<Rightarrow> (string \<rightharpoonup> RoleDTO) \<Rightarrow> SearchOptions \<Rightarrow> string list \<Rightarrow> Permission list \<Rightarrow>
     Permission list" where
  "appendMatchingBasicRoles d rs searchOptions [] permissions = permissions"
| "appendMatchingBasicRoles d rs searchOptions (builtin # rest) permissions =
     (case rs builtin of
        Some basicRole \<Rightarrow>
          appendMatchingBasicRoles d rs searchOptions rest
            (permissions @
               filter (\<lambda>permission. PermissionMatchesSearchOptions d permission searchOptions)
                 (Permissions basicRole))
      | None \<Rightarrow> appendMatchingBasicRoles d rs searchOptions rest permissions)"

definition searchUserPermissions ::
  "Deps \<Rightarrow> Service \<Rightarrow> int \<Rightarrow> SearchOptions \<Rightarrow> state \<Rightarrow>
     (Permission list \<times> error option) \<times> state" where
  "searchUserPermissions d s orgID searchOptions st =
     (case ComputeUserID d searchOptions of
        (userID, Some err) \<Rightarrow> (([], Some err), st)
      | (userID, None) \<Rightarrow>
          (case store_GetUsersBasicRoles s [userID] orgID st of
             ((roleList, Some err), st1) \<Rightarrow> (([], Some (ErrFetchBasicRoles err)), st1)
           | ((roleList, None), st1) \<Rightarrow>
               (case map_of roleList userID of
                  None \<Rightarrow> (([], Some (ErrNoBasicRoles userID orgID)), st1)
                | Some rs \<Rightarrow>
                    (let permissions = appendMatchingBasicRoles d (roles s) searchOptions rs []
                     in case store_SearchUsersPermissions s orgID searchOptions st1 of
                          ((dbPermissions, Some err), st2) \<Rightarrow> (([], Some err), st2)
                        | ((dbPermissions, None), st2) \<Rightarrow>
                            (let permissions =
                                   permissions @
                                     (case map_of dbPermissions userID of
                                        Some ps \<Rightarrow> ps | None \<Rightarrow> []);
                                 key = GetPermissionCacheKey d (SignedInUser d userID orgID)
                             in ((permissions, None),
                                 cache_Set key permissions cacheTTL st2))))))"

definition searchUserPermissionsFromCache ::
  "Deps \<Rightarrow> int \<Rightarrow> SearchOptions \<Rightarrow> state \<Rightarrow> Permission list \<times> bool" where
  "searchUserPermissionsFromCache d orgID searchOptions st =
     (case ComputeUserID d searchOptions of
        (userID, Some err) \<Rightarrow> ([], False)
      | (userID, None) \<Rightarrow>
          (case cache st (GetPermissionCacheKey d (SignedInUser d userID orgID)) of
             None \<Rightarrow> ([], False)
           | Some (permissions, ttl) \<Rightarrow>
               (filter (\<lambda>permission. PermissionMatchesSearchOptions d permission searchOptions)
                  permissions, True)))"

definition SearchUserPermissions ::
  "Deps \<Rightarrow> Service \<Rightarrow> int \<Rightarrow> SearchOptions \<Rightarrow> state \<Rightarrow>
     (Permission list \<times> error option) \<times> state" where
  "SearchUserPermissions d s orgID searchOptions st =
     (if NamespacedID searchOptions = [] then (([], Some ErrNamespacedIDNotSpecified), st)
      else (case searchUserPermissionsFromCache d orgID searchOptions st of
              (permissions, True) \<Rightarrow> ((permissions, None), st)
            | (permissions, False) \<Rightarrow> searchUserPermissions d s orgID searchOptions st))"

text \<open>
  The map \<^verbatim>\<open>basicPermissions\<close> of the bulk path: the loop over \<^verbatim>\<open>s.roles\<close> gives a
  role an entry as soon as one of its permissions matches, and the entry holds the
  matching permissions in their order.
\<close>

definition filterBasicPermissions ::
  "Deps \<Rightarrow> Service \<Rightarrow> SearchOptions \<Rightarrow> (string \<rightharpoonup> Permission list)" where
  "filterBasicPermissions d s options role =
     (case roles s role of
        None \<Rightarrow> None
      | Some basicRole \<Rightarrow>
          (let matching =
                 filter (\<lambda>permission. PermissionMatchesSearchOptions d permission options)
                   (Permissions basicRole)
           in if matching = [] then None else Some matching))"

text \<open>
  The closure \<^verbatim>\<open>canView\<close>: the loop over the scopes the requester holds for the
  view action returns at the first scope that ends in \<^verbatim>\<open>*\<close>, and otherwise collects
  the third part of every scope that has three parts and a numeric third part.
\<close>

fun canViewScopes :: "string list \<Rightarrow> (int \<Rightarrow> bool) \<Rightarrow> int \<Rightarrow> bool" where
  "canViewScopes [] ids = (\<lambda>userID. ids userID)"
| "canViewScopes (scope # rest) ids =
     (if HasSuffix scope ''*'' then (\<lambda>_. True)
      else (let parts = Split scope CHR '':''
            in if length parts \<noteq> 3 then canViewScopes rest ids
               else (case ParseInt (parts ! 2) of
                       (ident, Some err) \<Rightarrow> canViewScopes rest ids
                     | (ident, None) \<Rightarrow> canViewScopes rest (ids(ident := True)))))"

definition canView :: "Deps \<Rightarrow> Requester \<Rightarrow> int \<Rightarrow> bool" where
  "canView d usr =
     (let siuPermissions = GetPermissions usr
      in if length siuPermissions = 0 then (\<lambda>_. False)
         else (case map_of siuPermissions (ActionUsersPermissionsRead d) of
                 None \<Rightarrow> (\<lambda>_. False)
               | Some scopes \<Rightarrow> canViewScopes scopes (\<lambda>_. False)))"

fun mergeRoles ::
  "(string \<rightharpoonup> Permission list) \<Rightarrow> string list \<Rightarrow> Permission list \<Rightarrow> Permission list" where
  "mergeRoles basicPermissions [] perms = perms"
| "mergeRoles basicPermissions (role # rest) perms =
     (case basicPermissions role of
        None \<Rightarrow> mergeRoles basicPermissions rest perms
      | Some basicPermission \<Rightarrow> mergeRoles basicPermissions rest (perms @ basicPermission))"

fun mergeUsers ::
  "(string \<rightharpoonup> Permission list) \<Rightarrow> (int \<times> Permission list) list \<Rightarrow> (int \<Rightarrow> bool) \<Rightarrow>
     (int \<times> string list) list \<Rightarrow> (int \<rightharpoonup> Permission list) \<Rightarrow> (int \<rightharpoonup> Permission list)" where
  "mergeUsers basicPermissions usersPermissions cv [] res = res"
| "mergeUsers basicPermissions usersPermissions cv ((userID, rs) # rest) res =
     (if \<not> cv userID then mergeUsers basicPermissions usersPermissions cv rest res
      else (let perms = mergeRoles basicPermissions rs [];
                perms = (case map_of usersPermissions userID of
                           Some dbPerms \<Rightarrow> perms @ dbPerms
                         | None \<Rightarrow> perms)
            in if length perms > 0
               then mergeUsers basicPermissions usersPermissions cv rest (res(userID \<mapsto> perms))
               else mergeUsers basicPermissions usersPermissions cv rest res))"

definition SearchUsersPermissions ::
  "Deps \<Rightarrow> Service \<Rightarrow> Requester \<Rightarrow> SearchOptions \<Rightarrow> state \<Rightarrow>
     ((int \<rightharpoonup> Permission list) \<times> error option) \<times> state" where
  "SearchUsersPermissions d s usr options0 st =
     (let options = options0\<lparr>opt_RolePrefixes := OSSRolesPrefixes d\<rparr>
      in if NamespacedID options \<noteq> []
         then (case ComputeUserID d options of
                 (userID, Some err) \<Rightarrow> ((Map.empty, Some err), st)
               | (userID, None) \<Rightarrow>
                   (case SearchUserPermissions d s (GetOrgID usr) options st of
                      ((userPerms, Some err), st') \<Rightarrow> ((Map.empty, Some err), st')
                    | ((userPerms, None), st') \<Rightarrow> (([userID \<mapsto> userPerms], None), st')))
         else (let basicPermissions = filterBasicPermissions d s options
               in case store_GetUsersBasicRoles s [] (GetOrgID usr) st of
                    ((usersRoles, Some err), st1) \<Rightarrow> ((Map.empty, Some err), st1)
                  | ((usersRoles, None), st1) \<Rightarrow>
                      (case store_SearchUsersPermissions s (GetOrgID usr) options st1 of
                         ((usersPermissions, Some err), st2) \<Rightarrow> ((Map.empty, Some err), st2)
                       | ((usersPermissions, None), st2) \<Rightarrow>
                           ((mergeUsers basicPermissions usersPermissions (canView d usr)
                               usersRoles Map.empty, None), st2))))"

subsection \<open>Role lookup\<close>

text \<open>
  Modelled from the spec: \<^verbatim>\<open>accesscontrol.RegistrationList\<close> and its method
  \<^verbatim>\<open>Range\<close> are declared in another package. The registrations are an append-only
  ordered list; \<open>Range\<close> calls the function on them in the order in which they were
  appended and stops when it returns \<^verbatim>\<open>false\<close>. The variables the closure
  assigns are the accumulator.
\<close>

fun Range :: "RoleRegistration list \<Rightarrow> (RoleRegistration \<Rightarrow> 'a \<Rightarrow> bool \<times> 'a) \<Rightarrow> 'a \<Rightarrow> 'a" where
  "Range [] f acc = acc"
| "Range (registration # rest) f acc =
     (case f registration acc of
        (True, acc') \<Rightarrow> Range rest f acc'
      | (False, acc') \<Rightarrow> acc')"

definition GetRoleByName :: "Service \<Rightarrow> int \<Rightarrow> string \<Rightarrow> RoleDTO option \<times> error option" where
  "GetRoleByName s orgID roleName =
     (if roles s roleName \<noteq> None then (None, Some ErrRoleNotFound)
      else Range (registrations s)
             (\<lambda>registration (role, err).
                if Name (Role registration) = roleName
                then (False,
                      (Some \<lparr>Name = Name (Role registration),
                             DisplayName = DisplayName (Role registration),
                             Description = Description (Role registration),
                             Permissions = Permissions (Role registration)\<rparr>, None))
                else (True, (role, err)))
             (None, Some ErrRoleNotFound))"

section \<open>Vocabulary of the statements\<close>

text \<open>
  The query of the batched team call, the team ids a cached team sub-query has to
  fetch (all of them under \<open>ReloadCache\<close>, otherwise the ones without a cache
  entry), and the permissions it takes from the cache.
\<close>

definition teamsQuery :: "Deps \<Rightarrow> int \<Rightarrow> int list \<Rightarrow> GetUserPermissionsQuery" where
  "teamsQuery d orgID teamIDs =
     \<lparr>OrgID = orgID, UserID = 0, Roles = [], TeamIDs = teamIDs,
      RolePrefixes = OSSRolesPrefixes d\<rparr>"

definition teamMisses :: "Deps \<Rightarrow> Requester \<Rightarrow> Options \<Rightarrow> state \<Rightarrow> int list" where
  "teamMisses d user options st =
     (if ReloadCache options then GetTeams user
      else filter (\<lambda>teamID. cache st (GetTeamPermissionCacheKey d teamID (GetOrgID user)) = None)
             (GetTeams user))"

definition teamHits :: "Deps \<Rightarrow> Requester \<Rightarrow> Options \<Rightarrow> state \<Rightarrow> Permission list" where
  "teamHits d user options st =
     (if ReloadCache options then []
      else concat (map (\<lambda>teamID.
                          case cache st (GetTeamPermissionCacheKey d teamID (GetOrgID user)) of
                            Some (teamPermissions, ttl) \<Rightarrow> teamPermissions
                          | None \<Rightarrow> []) (GetTeams user)))"

text \<open>The state after \<open>n\<close> successive cached team sub-queries for the same principal.\<close>

fun repeatTeams :: "nat \<Rightarrow> Deps \<Rightarrow> Service \<Rightarrow> Requester \<Rightarrow> Options \<Rightarrow> state \<Rightarrow> state" where
  "repeatTeams 0 d s user options st = st"
| "repeatTeams (Suc n) d s user options st =
     repeatTeams n d s user options (snd (getCachedTeamsPermissions d s user options st))"




text \<open>
  Visibility as the specification words it. A scope names a user id when it has the
  form \<open>kind:attribute:identifier\<close> (three parts separated by colons) and the
  identifier is the decimal numeral of the id. A requester may view a user when it
  holds the view action with a scope ending in \<open>*\<close>, or with a scope naming the user.
\<close>

definition scopeNamesUser :: "string \<Rightarrow> int \<Rightarrow> bool" where
  "scopeNamesUser scope userID =
     (case Split scope CHR '':'' of
        [kind, attribute, identifier] \<Rightarrow> ParseInt identifier = (userID, None)
      | _ \<Rightarrow> False)"

definition mayView :: "Deps \<Rightarrow> Requester \<Rightarrow> int \<Rightarrow> bool" where
  "mayView d usr userID =
     (case map_of (GetPermissions usr) (ActionUsersPermissionsRead d) of
        None \<Rightarrow> False
      | Some scopes \<Rightarrow>
          (\<exists>scope \<in> set scopes. HasSuffix scope ''*'') \<or>
          (\<exists>scope \<in> set scopes. scopeNamesUser scope userID))"










section \<open>The scenario of the specification, as concrete values\<close>

text \<open>
  The examples below run the service on one deployment: organisation 1, a viewer
  with numeric id 42, teams 10 (no stored permissions), 20 and 30, and a Store holding a
  direct permission for user 42, a managed permission for the basic role Viewer and
  a permission for each of the teams 20 and 30. The constants and cache keys of the other packages get
  concrete values here, for the examples only.
\<close>

fun itoa_nat :: "nat \<Rightarrow> string" where
  "itoa_nat n =
     (if n < 10 then [''0123456789'' ! n]
      else itoa_nat (n div 10) @ [''0123456789'' ! (n mod 10)])"

declare itoa_nat.simps [simp del]

definition FormatInt :: "int \<Rightarrow> string" where
  "FormatInt i = (if i < 0 then CHR ''-'' # itoa_nat (nat (- i)) else itoa_nat (nat i))"

definition scenarioUserIdentifier :: "string \<times> string \<Rightarrow> int \<times> error option" where
  "scenarioUserIdentifier nsid =
     (case nsid of (namespace, identifier) \<Rightarrow>
        if namespace = ''user'' \<or> namespace = ''service-account''
        then ParseInt identifier else (0, None))"

definition scenarioDeps :: Deps where
  "scenarioDeps =
     \<lparr>ActionFoldersRead = ''folders:read'',
      ScopeSharedWithMeFolder = ''folders:uid:sharedwithme'',
      ManagedRolePrefix = ''managed:'',
      ExternalServiceRolePrefix = ''externalservice:'',
      ActionUsersPermissionsRead = ''users.permissions:read'',
      NamespaceUser = ''user'',
      NamespaceServiceAccount = ''service-account'',
      UserIdentifier = scenarioUserIdentifier,
      GetPermissionCacheKey =
        (\<lambda>u. ''rbac-permissions-'' @ FormatInt (GetOrgID u) @ ''-'' @
               fst (GetNamespacedID u) @ ''-'' @ snd (GetNamespacedID u)),
      GetUserDirectPermissionCacheKey =
        (\<lambda>u. ''rbac-permissions-direct-'' @ FormatInt (GetOrgID u) @ ''-'' @
               fst (GetNamespacedID u) @ ''-'' @ snd (GetNamespacedID u)),
      GetBasicRolePermissionCacheKey =
        (\<lambda>role orgID. ''rbac-permissions-basic-role-'' @ FormatInt orgID @ ''-'' @ role),
      GetTeamPermissionCacheKey =
        (\<lambda>teamID orgID. ''rbac-permissions-team-'' @ FormatInt orgID @ ''-'' @ FormatInt teamID),
      Wildcards =
        (\<lambda>options. if opt_Scope options = ''dashboards:uid:abc''
                    then [''*'', ''dashboards:*'', ''dashboards:uid:*''] else []),
      ComputeUserID = (\<lambda>options. ParseInt (drop 5 (NamespacedID options))),
      SignedInUser =
        (\<lambda>userID orgID.
           \<lparr>GetOrgID = orgID, GetNamespacedID = (''user'', FormatInt userID),
            GetOrgRoles = [], GetTeams = [], GetPermissions = [], HasUniqueId = True\<rparr>)\<rparr>"

definition scenarioDirect :: "int \<Rightarrow> Permission list" where
  "scenarioDirect userID =
     (if userID = 42 then [\<lparr>Action = ''datasources:read'', Scope = ''datasources:*''\<rparr>] else [])"

definition scenarioManaged :: "string \<Rightarrow> Permission list" where
  "scenarioManaged role =
     (if role = ''Viewer'' then [\<lparr>Action = ''folders:read'', Scope = ''folders:uid:general''\<rparr>]
      else [])"

definition scenarioTeam :: "int \<Rightarrow> Permission list option" where
  "scenarioTeam teamID =
     (if teamID = 20 then Some [\<lparr>Action = ''teams:read'', Scope = ''teams:id:20''\<rparr>]
      else if teamID = 30 then Some [\<lparr>Action = ''teams:write'', Scope = ''teams:id:30''\<rparr>]
      else None)"

definition scenarioStore :: Store where
  "scenarioStore =
     \<lparr>Store_GetUserPermissions =
        (\<lambda>q. (scenarioDirect (UserID q) @
                concat (map scenarioManaged (remdups (Roles q))) @
                concat (map (\<lambda>t. case scenarioTeam t of Some ps \<Rightarrow> ps | None \<Rightarrow> [])
                          (remdups (TeamIDs q))), None)),
      Store_GetBasicRolesPermissions =
        (\<lambda>q. (concat (map scenarioManaged (remdups (Roles q))), None)),
      Store_GetTeamsPermissions =
        (\<lambda>q. (List.map_filter (\<lambda>t. map_option (Pair t) (scenarioTeam t))
                 (remdups (TeamIDs q)), None)),
      Store_GetUsersBasicRoles =
        (\<lambda>userFilter orgID.
           (filter (\<lambda>entry. userFilter = [] \<or> fst entry \<in> set userFilter)
              [(7, [''Viewer'']), (8, [''Editor'']), (42, [''Viewer''])], None)),
      Store_SearchUsersPermissions =
        (\<lambda>orgID options.
           ([(7, [\<lparr>Action = ''dashboards:write'', Scope = ''dashboards:uid:abc''\<rparr>]),
             (8, [\<lparr>Action = ''dashboards:write'', Scope = ''dashboards:uid:xyz''\<rparr>]),
             (42, scenarioDirect 42)], None))\<rparr>"

definition scenarioService :: Service where
  "scenarioService =
     \<lparr>RBACPermissionCache = True,
      features = (\<lambda>flag. flag = FlagNestedFolders),
      registrations =
        [\<lparr>Role = \<lparr>Name = ''Viewer'', DisplayName = ''Shadow'', Description = [],
                    Permissions = []\<rparr>,
          Grants = [''Viewer'']\<rparr>,
         \<lparr>Role = \<lparr>Name = ''fixed:reports:reader'', DisplayName = ''Report reader'',
                    Description = [],
                    Permissions = [\<lparr>Action = ''reports:read'', Scope = ''reports:*''\<rparr>]\<rparr>,
          Grants = [''Viewer'']\<rparr>,
         \<lparr>Role = \<lparr>Name = ''fixed:reports:reader'', DisplayName = ''Second declaration'',
                    Description = [], Permissions = []\<rparr>,
          Grants = [''Editor'']\<rparr>],
      roles =
        [''Viewer'' \<mapsto>
           \<lparr>Name = ''basic:viewer'', DisplayName = ''Viewer'', Description = [],
            Permissions = [\<lparr>Action = ''dashboards:read'', Scope = ''dashboards:*''\<rparr>]\<rparr>,
         ''Editor'' \<mapsto>
           \<lparr>Name = ''basic:editor'', DisplayName = ''Editor'', Description = [],
            Permissions = [\<lparr>Action = ''dashboards:write'', Scope = ''dashboards:*''\<rparr>]\<rparr>],
      store = scenarioStore\<rparr>"

definition scenarioUser :: Requester where
  "scenarioUser =
     \<lparr>GetOrgID = 1, GetNamespacedID = (''user'', ''42''), GetOrgRoles = [''Viewer''],
      GetTeams = [10], GetPermissions = [(''users.permissions:read'', [''users:id:7''])],
      HasUniqueId = True\<rparr>"

definition teamsUser :: Requester where
  "teamsUser = scenarioUser\<lparr>GetTeams := [10, 20, 30]\<rparr>"

definition emptyState :: state where
  "emptyState = \<lparr>cache = Map.empty, calls = []\<rparr>"

definition anonymousUser :: Requester where
  "anonymousUser =
     \<lparr>GetOrgID = 1, GetNamespacedID = (''anonymous'', ''0''), GetOrgRoles = [''Viewer''],
      GetTeams = [], GetPermissions = [], HasUniqueId = False\<rparr>"

definition unavailable :: error where
  "unavailable = CollaboratorError ''store unavailable''"



definition memberUser :: Requester where
  "memberUser = scenarioUser\<lparr>GetTeams := [20]\<rparr>"

definition malformedUser :: Requester where
  "malformedUser = memberUser\<lparr>GetNamespacedID := (''user'', ''abc'')\<rparr>"

definition directOutageService :: Service where
  "directOutageService =
     scenarioService
       \<lparr>store := scenarioStore\<lparr>Store_GetUserPermissions := (\<lambda>q. ([], Some unavailable))\<rparr>\<rparr>"

text \<open>
  The cache after a cached resolution for \<open>memberUser\<close> (and, the keys of the
  basic-role and team entries not depending on the identifier, for \<open>malformedUser\<close>).
\<close>

definition warmState :: state where
  "warmState =
     \<lparr>cache =
        [''rbac-permissions-basic-role-1-Viewer'' \<mapsto>
           ([\<lparr>Action = ''dashboards:read'', Scope = ''dashboards:*''\<rparr>,
             \<lparr>Action = ''folders:read'', Scope = ''folders:uid:general''\<rparr>], 60000000000),
         ''rbac-permissions-team-1-20'' \<mapsto>
           ([\<lparr>Action = ''teams:read'', Scope = ''teams:id:20''\<rparr>], 60000000000),
         ''rbac-permissions-direct-1-user-42'' \<mapsto>
           ([\<lparr>Action = ''datasources:read'', Scope = ''datasources:*''\<rparr>,
             \<lparr>Action = ''folders:read'', Scope = ''folders:uid:sharedwithme''\<rparr>], 60000000000)],
      calls = []\<rparr>"


section \<open>Properties\<close>

subsection \<open>Library functions\<close>

lemma HasPrefix_iff_prefix: "HasPrefix s pre \<longleftrightarrow> prefix pre s"
proof
  assume "HasPrefix s pre"
  then have "take (length pre) s = pre" by (simp add: HasPrefix_def)
  then show "prefix pre s" by (metis take_is_prefix)
next
  assume "prefix pre s"
  then obtain zs where "s = pre @ zs" by (auto simp: prefix_def)
  then show "HasPrefix s pre" by (simp add: HasPrefix_def)
qed

lemma HasSuffix_iff_suffix: "HasSuffix s suf \<longleftrightarrow> suffix suf s"
proof
  assume "HasSuffix s suf"
  then have "drop (length s - length suf) s = suf" by (simp add: HasSuffix_def)
  then show "suffix suf s" by (metis suffix_drop)
next
  assume "suffix suf s"
  then obtain zs where "s = zs @ suf" by (auto simp: suffix_def)
  then show "HasSuffix s suf" by (simp add: HasSuffix_def)
qed

lemmas scenario_defs =
  scenarioDeps_def scenarioStore_def scenarioService_def scenarioUser_def emptyState_def
  scenarioDirect_def scenarioManaged_def scenarioTeam_def scenarioUserIdentifier_def
  FormatInt_def ParseInt_def digit_of_def OSSRolesPrefixes_def
  SharedWithMeFolderPermission_def cacheTTL_def log_call_def cache_Set_def cache_Delete_def

subsection \<open>The search predicate\<close>

text \<open>
  Claim C4. A permission matches the search options exactly when (scope) a scope
  filter, if set, equals the permission's scope or has it among its wildcard forms,
  and (action) the permission's action equals the exact action filter if one is set,
  and otherwise starts with the action prefix. The three examples of the
  specification follow: a permission scoped \<open>dashboards:*\<close> matches the scope filter
  \<open>dashboards:uid:abc\<close> whenever that wildcard is among the filter's wildcard forms;
  the exact action filter \<open>dashboards:read\<close> rejects the action \<open>dashboards:write\<close>;
  the action prefix \<open>dashboards:\<close> accepts the action \<open>dashboards:read\<close>.
\<close>

theorem PermissionMatchesSearchOptions_iff:
  "(PermissionMatchesSearchOptions d permission searchOptions \<longleftrightarrow>
      (opt_Scope searchOptions \<noteq> [] \<longrightarrow>
         Scope permission = opt_Scope searchOptions \<or>
         Scope permission \<in> set (Wildcards d searchOptions)) \<and>
      (if opt_Action searchOptions \<noteq> []
       then Action permission = opt_Action searchOptions
       else prefix (ActionPrefix searchOptions) (Action permission))) \<and>
   (opt_Scope searchOptions = ''dashboards:uid:abc'' \<and>
    ''dashboards:*'' \<in> set (Wildcards d searchOptions) \<and>
    opt_Action searchOptions = [] \<and> ActionPrefix searchOptions = [] \<longrightarrow>
      PermissionMatchesSearchOptions d \<lparr>Action = a, Scope = ''dashboards:*''\<rparr> searchOptions) \<and>
   (opt_Action searchOptions = ''dashboards:read'' \<longrightarrow>
      \<not> PermissionMatchesSearchOptions d \<lparr>Action = ''dashboards:write'', Scope = sc\<rparr>
           searchOptions) \<and>
   (opt_Scope searchOptions = [] \<and> opt_Action searchOptions = [] \<and>
    ActionPrefix searchOptions = ''dashboards:'' \<longrightarrow>
      PermissionMatchesSearchOptions d \<lparr>Action = ''dashboards:read'', Scope = sc\<rparr>
        searchOptions)"
  by (auto simp: PermissionMatchesSearchOptions_def HasPrefix_iff_prefix)

theorem PermissionMatchesSearchOptions_iff_witness:
  "PermissionMatchesSearchOptions scenarioDeps
     \<lparr>Action = ''dashboards:read'', Scope = ''dashboards:*''\<rparr>
     \<lparr>ActionPrefix = [], opt_Action = [], opt_Scope = ''dashboards:uid:abc'',
      NamespacedID = [], opt_RolePrefixes = []\<rparr> \<and>
   \<not> PermissionMatchesSearchOptions scenarioDeps
     \<lparr>Action = ''dashboards:write'', Scope = ''dashboards:*''\<rparr>
     \<lparr>ActionPrefix = [], opt_Action = ''dashboards:read'', opt_Scope = [],
      NamespacedID = [], opt_RolePrefixes = []\<rparr> \<and>
   PermissionMatchesSearchOptions scenarioDeps
     \<lparr>Action = ''dashboards:read'', Scope = ''dashboards:*''\<rparr>
     \<lparr>ActionPrefix = ''dashboards:'', opt_Action = [], opt_Scope = [],
      NamespacedID = [], opt_RolePrefixes = []\<rparr>"
  using
    PermissionMatchesSearchOptions_iff [of scenarioDeps _
      "\<lparr>ActionPrefix = [], opt_Action = [], opt_Scope = ''dashboards:uid:abc'',
        NamespacedID = [], opt_RolePrefixes = []\<rparr>" "''dashboards:read''"]
    PermissionMatchesSearchOptions_iff [of scenarioDeps _
      "\<lparr>ActionPrefix = [], opt_Action = ''dashboards:read'', opt_Scope = [],
        NamespacedID = [], opt_RolePrefixes = []\<rparr>" _ "''dashboards:*''"]
    PermissionMatchesSearchOptions_iff [of scenarioDeps _
      "\<lparr>ActionPrefix = ''dashboards:'', opt_Action = [], opt_Scope = [],
        NamespacedID = [], opt_RolePrefixes = []\<rparr>" _ "''dashboards:*''"]
  by (simp add: scenarioDeps_def)

subsection \<open>The generic cache helper\<close>

text \<open>
  Claim C6. \<open>getCachedPermissions\<close> returns the cached value, and leaves the state
  as it is, when \<open>ReloadCache\<close> is unset and the key has an entry. Otherwise it runs
  the producer once, on the state of the call: when the producer succeeds, the
  produced permissions are stored under the key with a TTL of 60 seconds (in
  nanoseconds), replacing any entry, and returned; when the producer fails, its error
  is returned with no permissions and the state is the one the producer left.
\<close>

theorem getCachedPermissions_spec:
  "(\<not> ReloadCache options \<and> cache st key = Some (cached, ttl) \<longrightarrow>
      getCachedPermissions key getPermissionsFn options st = ((cached, None), st)) \<and>
   ((ReloadCache options \<or> cache st key = None) \<and>
    getPermissionsFn st = ((permissions, None), st') \<longrightarrow>
      getCachedPermissions key getPermissionsFn options st =
        ((permissions, None), st'\<lparr>cache := (cache st')(key \<mapsto> (permissions, 60000000000))\<rparr>)) \<and>
   ((ReloadCache options \<or> cache st key = None) \<and>
    getPermissionsFn st = ((permissions, Some err), st') \<longrightarrow>
      getCachedPermissions key getPermissionsFn options st = (([], Some err), st'))"
  by (auto simp: getCachedPermissions_def cache_Set_def cacheTTL_def)

theorem getCachedPermissions_spec_witness:
  "getCachedPermissions ''k'' (getUserDirectPermissions scenarioDeps scenarioService scenarioUser)
     \<lparr>ReloadCache = False\<rparr> \<lparr>cache = [''k'' \<mapsto> ([], 5)], calls = []\<rparr> =
     (([], None), \<lparr>cache = [''k'' \<mapsto> ([], 5)], calls = []\<rparr>) \<and>
   getCachedPermissions ''k'' (getUserDirectPermissions scenarioDeps scenarioService scenarioUser)
     \<lparr>ReloadCache = True\<rparr> \<lparr>cache = [''k'' \<mapsto> ([], 5)], calls = []\<rparr> =
     (([\<lparr>Action = ''datasources:read'', Scope = ''datasources:*''\<rparr>,
        \<lparr>Action = ''folders:read'', Scope = ''folders:uid:sharedwithme''\<rparr>], None),
      \<lparr>cache = [''k'' \<mapsto> ([\<lparr>Action = ''datasources:read'', Scope = ''datasources:*''\<rparr>,
                             \<lparr>Action = ''folders:read'', Scope = ''folders:uid:sharedwithme''\<rparr>],
                            60000000000)],
       calls = [CallGetUserPermissions
                  \<lparr>OrgID = 1, UserID = 42, Roles = [], TeamIDs = [],
                   RolePrefixes = [''managed:'', ''externalservice:'']\<rparr>]\<rparr>) \<and>
   getCachedPermissions ''k''
     (\<lambda>st. (([\<lparr>Action = ''a'', Scope = ''s''\<rparr>], Some unavailable), st))
     \<lparr>ReloadCache = False\<rparr> \<lparr>cache = Map.empty, calls = []\<rparr> =
     (([], Some unavailable), \<lparr>cache = Map.empty, calls = []\<rparr>)"
proof -
  have p: "getUserDirectPermissions scenarioDeps scenarioService scenarioUser
             \<lparr>cache = [''k'' \<mapsto> ([], 5)], calls = []\<rparr> =
           (([\<lparr>Action = ''datasources:read'', Scope = ''datasources:*''\<rparr>,
              \<lparr>Action = ''folders:read'', Scope = ''folders:uid:sharedwithme''\<rparr>], None),
            \<lparr>cache = [''k'' \<mapsto> ([], 5)],
             calls = [CallGetUserPermissions
                        \<lparr>OrgID = 1, UserID = 42, Roles = [], TeamIDs = [],
                         RolePrefixes = [''managed:'', ''externalservice:'']\<rparr>]\<rparr>)"
    by (simp add: getUserDirectPermissions_def store_GetUserPermissions_def scenario_defs)
  show ?thesis
    using
      getCachedPermissions_spec [of "\<lparr>ReloadCache = False\<rparr>"
        "\<lparr>cache = [''k'' \<mapsto> ([], 5)], calls = []\<rparr>" "''k''" "[]" 5
        "getUserDirectPermissions scenarioDeps scenarioService scenarioUser"]
      getCachedPermissions_spec [of "\<lparr>ReloadCache = True\<rparr>"
        "\<lparr>cache = [''k'' \<mapsto> ([], 5)], calls = []\<rparr>" "''k''" _ _
        "getUserDirectPermissions scenarioDeps scenarioService scenarioUser"
        "[\<lparr>Action = ''datasources:read'', Scope = ''datasources:*''\<rparr>,
          \<lparr>Action = ''folders:read'', Scope = ''folders:uid:sharedwithme''\<rparr>]"
        "\<lparr>cache = [''k'' \<mapsto> ([], 5)],
          calls = [CallGetUserPermissions
                     \<lparr>OrgID = 1, UserID = 42, Roles = [], TeamIDs = [],
                      RolePrefixes = [''managed:'', ''externalservice:'']\<rparr>]\<rparr>"]
      getCachedPermissions_spec [of "\<lparr>ReloadCache = False\<rparr>"
        "\<lparr>cache = Map.empty, calls = []\<rparr>" "''k''" _ _
        "\<lambda>st. (([\<lparr>Action = ''a'', Scope = ''s''\<rparr>], Some unavailable),
               st)"
        "[\<lparr>Action = ''a'', Scope = ''s''\<rparr>]"
        "\<lparr>cache = Map.empty, calls = []\<rparr>" unavailable]
      p
    by simp
qed

subsection \<open>Role lookup\<close>

lemma Range_find:
  "Range regs
     (\<lambda>registration (role, err).
         if Name (Role registration) = roleName
         then (False,
               (Some \<lparr>Name = Name (Role registration),
                      DisplayName = DisplayName (Role registration),
                      Description = Description (Role registration),
                      Permissions = Permissions (Role registration)\<rparr>, None))
         else (True, (role, err)))
     (None, Some ErrRoleNotFound) =
   (case find (\<lambda>r. Name (Role r) = roleName) regs of
      Some r \<Rightarrow> (Some (Role r), None)
    | None \<Rightarrow> (None, Some ErrRoleNotFound))"
  by (induction regs) auto

lemma GetRoleByName_find:
  "GetRoleByName s orgID roleName =
     (if roles s roleName \<noteq> None then (None, Some ErrRoleNotFound)
      else (case find (\<lambda>r. Name (Role r) = roleName) (registrations s) of
              Some r \<Rightarrow> (Some (Role r), None)
            | None \<Rightarrow> (None, Some ErrRoleNotFound)))"
  by (simp add: GetRoleByName_def Range_find)

text \<open>
  Claim C7. A name that is a key of the basic-role map is answered with
  \<open>ErrRoleNotFound\<close>, whatever the registrations hold. For any other name, the
  lookup fails with \<open>ErrRoleNotFound\<close> when no registration carries the name, and
  otherwise returns the role of the first registration that carries it.
\<close>

theorem GetRoleByName_spec:
  "(roles s roleName \<noteq> None \<longrightarrow> GetRoleByName s orgID roleName = (None, Some ErrRoleNotFound)) \<and>
   (roles s roleName = None \<and> (\<forall>r \<in> set (registrations s). Name (Role r) \<noteq> roleName) \<longrightarrow>
      GetRoleByName s orgID roleName = (None, Some ErrRoleNotFound)) \<and>
   (roles s roleName = None \<and> (\<exists>r \<in> set (registrations s). Name (Role r) = roleName) \<longrightarrow>
      (\<exists>r \<in> set (registrations s). Name (Role r) = roleName \<and>
         find (\<lambda>r. Name (Role r) = roleName) (registrations s) = Some r \<and>
         GetRoleByName s orgID roleName = (Some (Role r), None)))"
proof (intro conjI impI)
  assume "roles s roleName \<noteq> None"
  then show "GetRoleByName s orgID roleName = (None, Some ErrRoleNotFound)"
    by (simp add: GetRoleByName_find)
next
  assume "roles s roleName = None \<and> (\<forall>r \<in> set (registrations s). Name (Role r) \<noteq> roleName)"
  then have "roles s roleName = None"
    and "find (\<lambda>r. Name (Role r) = roleName) (registrations s) = None"
    by (auto simp: find_None_iff)
  then show "GetRoleByName s orgID roleName = (None, Some ErrRoleNotFound)"
    by (simp add: GetRoleByName_find)
next
  assume a: "roles s roleName = None \<and> (\<exists>r \<in> set (registrations s). Name (Role r) = roleName)"
  then obtain r where r: "find (\<lambda>r. Name (Role r) = roleName) (registrations s) = Some r"
    by (cases "find (\<lambda>r. Name (Role r) = roleName) (registrations s)") (auto simp: find_None_iff)
  then have "r \<in> set (registrations s)" "Name (Role r) = roleName"
    by (auto simp: find_Some_iff)
  moreover have "GetRoleByName s orgID roleName = (Some (Role r), None)"
    using a r by (simp add: GetRoleByName_find)
  ultimately show "\<exists>r \<in> set (registrations s). Name (Role r) = roleName \<and>
         find (\<lambda>r. Name (Role r) = roleName) (registrations s) = Some r \<and>
         GetRoleByName s orgID roleName = (Some (Role r), None)"
    using r by blast
qed

theorem GetRoleByName_spec_witness:
  "GetRoleByName scenarioService 1 ''Viewer'' = (None, Some ErrRoleNotFound) \<and>
   GetRoleByName scenarioService 1 ''fixed:missing'' = (None, Some ErrRoleNotFound) \<and>
   GetRoleByName scenarioService 1 ''fixed:reports:reader'' =
     (Some \<lparr>Name = ''fixed:reports:reader'', DisplayName = ''Report reader'', Description = [],
            Permissions = [\<lparr>Action = ''reports:read'', Scope = ''reports:*''\<rparr>]\<rparr>, None)"
  using GetRoleByName_spec [of scenarioService "''Viewer''" 1]
    GetRoleByName_spec [of scenarioService "''fixed:missing''" 1]
    GetRoleByName_spec [of scenarioService "''fixed:reports:reader''" 1]
  by (simp add: scenarioService_def)

subsection \<open>Principals without a unique id\<close>

text \<open>
  Claim C9. For a principal whose \<open>HasUniqueId\<close> is false, \<open>GetUserPermissions\<close> is
  the uncached resolution whatever the configuration says: the cache is not written
  (the cache after the call is the cache before it), it is not read (the result is
  the same for any cache contents), and every call whose identifier resolves asks
  the Store again with the combined query.
\<close>

theorem GetUserPermissions_without_unique_id:
  "\<not> HasUniqueId user \<Longrightarrow>
     GetUserPermissions d s user options st = getUserPermissions d s user options st \<and>
     cache (snd (GetUserPermissions d s user options st)) = cache st \<and>
     fst (GetUserPermissions d s user options (st\<lparr>cache := c\<rparr>)) =
       fst (GetUserPermissions d s user options st) \<and>
     (snd (UserIdentifier d (GetNamespacedID user)) = None \<longrightarrow>
        calls (snd (GetUserPermissions d s user options st)) =
          calls st @
            [CallGetUserPermissions
               \<lparr>OrgID = GetOrgID user, UserID = fst (UserIdentifier d (GetNamespacedID user)),
                Roles = GetOrgRoles user, TeamIDs = GetTeams user,
                RolePrefixes = OSSRolesPrefixes d\<rparr>])"
  by (auto simp: GetUserPermissions_def getUserPermissions_def store_GetUserPermissions_def
        log_call_def Let_def split: prod.splits option.splits)

theorem GetUserPermissions_without_unique_id_witness:
  "RBACPermissionCache scenarioService \<and> \<not> HasUniqueId anonymousUser \<and>
   GetUserPermissions scenarioDeps scenarioService anonymousUser \<lparr>ReloadCache = False\<rparr>
     \<lparr>cache = [''rbac-permissions-basic-role-1-Viewer'' \<mapsto> ([], 5)], calls = []\<rparr> =
   (([\<lparr>Action = ''dashboards:read'', Scope = ''dashboards:*''\<rparr>,
      \<lparr>Action = ''folders:read'', Scope = ''folders:uid:sharedwithme''\<rparr>,
      \<lparr>Action = ''folders:read'', Scope = ''folders:uid:general''\<rparr>], None),
    \<lparr>cache = [''rbac-permissions-basic-role-1-Viewer'' \<mapsto> ([], 5)],
     calls = [CallGetUserPermissions
                \<lparr>OrgID = 1, UserID = 0, Roles = [''Viewer''], TeamIDs = [],
                 RolePrefixes = [''managed:'', ''externalservice:'']\<rparr>]\<rparr>)"
proof -
  have h: "\<not> HasUniqueId anonymousUser" by (simp add: anonymousUser_def)
  show ?thesis
    using h GetUserPermissions_without_unique_id [OF h, of scenarioDeps scenarioService
      "\<lparr>ReloadCache = False\<rparr>"
      "\<lparr>cache = [''rbac-permissions-basic-role-1-Viewer'' \<mapsto> ([], 5)], calls = []\<rparr>"]
    by (simp add: getUserPermissions_def store_GetUserPermissions_def anonymousUser_def
          scenario_defs)
qed

subsection \<open>The cached team sub-query\<close>

lemma collectTeams_eq:
  "collectTeams d orgID c teams permissions miss =
     (permissions @
        concat (map (\<lambda>teamID. case c (GetTeamPermissionCacheKey d teamID orgID) of
                                Some (teamPermissions, ttl) \<Rightarrow> teamPermissions
                              | None \<Rightarrow> []) teams),
      miss @ filter (\<lambda>teamID. c (GetTeamPermissionCacheKey d teamID orgID) = None) teams)"
  by (induction teams arbitrary: permissions miss) (auto split: option.splits)

lemma writeBackTeams_eq:
  "writeBackTeams d orgID teamsPermissions permissions st =
     (permissions @ concat (map snd teamsPermissions),
      st\<lparr>cache :=
           foldl (\<lambda>c (teamID, teamPermissions).
                    c(GetTeamPermissionCacheKey d teamID orgID \<mapsto> (teamPermissions, cacheTTL)))
             (cache st) teamsPermissions\<rparr>)"
  by (induction teamsPermissions arbitrary: permissions st) (auto simp: cache_Set_def)

lemma foldl_upd_other:
  "\<forall>(teamID, teamPermissions) \<in> set m. f teamID \<noteq> k \<Longrightarrow>
     foldl (\<lambda>c (teamID, teamPermissions). c(f teamID \<mapsto> (teamPermissions, ttl))) c0 m k = c0 k"
  by (induction m arbitrary: c0) auto

lemma foldl_upd_distinct:
  "distinct (map (\<lambda>(teamID, teamPermissions). f teamID) m) \<Longrightarrow> (t, ps) \<in> set m \<Longrightarrow>
     foldl (\<lambda>c (teamID, teamPermissions). c(f teamID \<mapsto> (teamPermissions, ttl))) c0 m (f t) =
       Some (ps, ttl)"
proof (induction m arbitrary: c0)
  case Nil
  then show ?case by simp
next
  case (Cons e m)
  obtain t' ps' where e: "e = (t', ps')" by (cases e)
  show ?case
  proof (cases "(t, ps) = e")
    case True
    with Cons.prems e have other: "\<forall>(teamID, teamPermissions) \<in> set m. f teamID \<noteq> f t"
      by (auto simp: image_iff)
    have "foldl (\<lambda>c (teamID, teamPermissions). c(f teamID \<mapsto> (teamPermissions, ttl)))
            (c0(f t \<mapsto> (ps, ttl))) m (f t) = (c0(f t \<mapsto> (ps, ttl))) (f t)"
      by (rule foldl_upd_other [OF other])
    moreover from True e have "t' = t" "ps' = ps" by auto
    ultimately show ?thesis unfolding e by (simp only: foldl_Cons prod.case fun_upd_same)
  next
    case False
    with Cons.prems have "distinct (map (\<lambda>(teamID, teamPermissions). f teamID) m)"
      and "(t, ps) \<in> set m"
      by auto
    then have "foldl (\<lambda>c (teamID, teamPermissions). c(f teamID \<mapsto> (teamPermissions, ttl)))
            (c0(f t' \<mapsto> (ps', ttl))) m (f t) = Some (ps, ttl)"
      by (rule Cons.IH)
    then show ?thesis unfolding e by (simp only: foldl_Cons prod.case)
  qed
qed

lemma getCachedTeamsPermissions_eq:
  "getCachedTeamsPermissions d s user options st =
     (let miss = teamMisses d user options st;
          hits = teamHits d user options st;
          q = teamsQuery d (GetOrgID user) miss
      in if miss = [] then ((hits, None), st)
         else (case Store_GetTeamsPermissions (store s) q of
                 (teamsPermissions, Some err) \<Rightarrow>
                   (([], Some err), st\<lparr>calls := calls st @ [CallGetTeamsPermissions q]\<rparr>)
               | (teamsPermissions, None) \<Rightarrow>
                   ((hits @ concat (map snd teamsPermissions), None),
                    st\<lparr>calls := calls st @ [CallGetTeamsPermissions q],
                       cache :=
                         foldl (\<lambda>c (teamID, teamPermissions).
                                  c(GetTeamPermissionCacheKey d teamID (GetOrgID user) \<mapsto>
                                      (teamPermissions, cacheTTL)))
                           (cache st) teamsPermissions\<rparr>)))"
  by (auto simp: getCachedTeamsPermissions_def teamMisses_def teamHits_def teamsQuery_def
        getTeamsPermissions_def store_GetTeamsPermissions_def log_call_def collectTeams_eq
        writeBackTeams_eq Let_def split: prod.splits option.splits)

text \<open>
  Claim C5. Without \<open>ReloadCache\<close>, the cached team sub-query fetches exactly the
  team ids without a cache entry, in the order of the principal's team list. When
  there is none, it makes no Store call and leaves the cache as it is. Otherwise it
  makes one Store call, the batched team query for exactly these ids; when that call
  fails, the error is returned and the cache is unchanged; when it succeeds, the
  entries of the answer are written one by one, each under the key of its team id
  with the fixed TTL, so that, the keys of the entries being distinct, every
  returned team id has its returned permissions in the cache afterwards.
\<close>

theorem getCachedTeamsPermissions_batches_misses:
  assumes "\<not> ReloadCache options"
    and "miss = filter (\<lambda>teamID. cache st (GetTeamPermissionCacheKey d teamID (GetOrgID user)) = None)
                  (GetTeams user)"
    and "getCachedTeamsPermissions d s user options st = (r, st')"
  shows "(miss = [] \<longrightarrow> calls st' = calls st \<and> cache st' = cache st \<and> snd r = None) \<and>
         (miss \<noteq> [] \<longrightarrow>
            calls st' = calls st @ [CallGetTeamsPermissions (teamsQuery d (GetOrgID user) miss)] \<and>
            (case Store_GetTeamsPermissions (store s) (teamsQuery d (GetOrgID user) miss) of
               (teamsPermissions, Some err) \<Rightarrow> r = ([], Some err) \<and> cache st' = cache st
             | (teamsPermissions, None) \<Rightarrow>
                 snd r = None \<and>
                 cache st' =
                   foldl (\<lambda>c (teamID, teamPermissions).
                            c(GetTeamPermissionCacheKey d teamID (GetOrgID user) \<mapsto>
                                (teamPermissions, cacheTTL)))
                     (cache st) teamsPermissions \<and>
                 (distinct (map (\<lambda>(teamID, teamPermissions).
                                   GetTeamPermissionCacheKey d teamID (GetOrgID user))
                              teamsPermissions) \<longrightarrow>
                    (\<forall>(teamID, teamPermissions) \<in> set teamsPermissions.
                       cache st' (GetTeamPermissionCacheKey d teamID (GetOrgID user)) =
                         Some (teamPermissions, cacheTTL)))))"
proof -
  have m: "teamMisses d user options st = miss"
    using assms(1,2) by (simp add: teamMisses_def)
  show ?thesis
  proof (cases "miss = []")
    case True
    then show ?thesis
      using assms(3) m by (auto simp: getCachedTeamsPermissions_eq Let_def)
  next
    case False
    obtain tp err where a: "Store_GetTeamsPermissions (store s) (teamsQuery d (GetOrgID user) miss) = (tp, err)"
      by (cases "Store_GetTeamsPermissions (store s) (teamsQuery d (GetOrgID user) miss)")
    show ?thesis
    proof (cases err)
      case None
      then show ?thesis
        using assms(3) m False a foldl_upd_distinct [where m = tp and ttl = cacheTTL
            and f = "\<lambda>teamID. GetTeamPermissionCacheKey d teamID (GetOrgID user)"
            and ?c0.0 = "cache st"]
        by (auto simp: getCachedTeamsPermissions_eq Let_def)
    next
      case (Some e)
      then show ?thesis
        using assms(3) m False a by (auto simp: getCachedTeamsPermissions_eq Let_def)
    qed
  qed
qed

theorem getCachedTeamsPermissions_batches_misses_witness:
  "calls (snd (getCachedTeamsPermissions scenarioDeps scenarioService teamsUser
                 \<lparr>ReloadCache = False\<rparr>
                 \<lparr>cache = [''rbac-permissions-team-1-20'' \<mapsto>
                              ([\<lparr>Action = ''teams:read'', Scope = ''teams:id:20''\<rparr>], 7)],
                  calls = []\<rparr>)) =
     [CallGetTeamsPermissions
        \<lparr>OrgID = 1, UserID = 0, Roles = [], TeamIDs = [10, 30],
         RolePrefixes = [''managed:'', ''externalservice:'']\<rparr>] \<and>
   cache (snd (getCachedTeamsPermissions scenarioDeps scenarioService teamsUser
                 \<lparr>ReloadCache = False\<rparr>
                 \<lparr>cache = [''rbac-permissions-team-1-20'' \<mapsto>
                              ([\<lparr>Action = ''teams:read'', Scope = ''teams:id:20''\<rparr>], 7)],
                  calls = []\<rparr>)) ''rbac-permissions-team-1-30'' =
     Some ([\<lparr>Action = ''teams:write'', Scope = ''teams:id:30''\<rparr>], 60000000000)"
proof -
  let ?st = "\<lparr>cache = [''rbac-permissions-team-1-20'' \<mapsto>
                        ([\<lparr>Action = ''teams:read'', Scope = ''teams:id:20''\<rparr>], 7)],
              calls = []\<rparr>"
  let ?run = "getCachedTeamsPermissions scenarioDeps scenarioService teamsUser
                \<lparr>ReloadCache = False\<rparr> ?st"
  have h1: "\<not> ReloadCache \<lparr>ReloadCache = False\<rparr>" by simp
  have h2: "[10, 30] =
      filter (\<lambda>teamID. cache ?st (GetTeamPermissionCacheKey scenarioDeps teamID
                                     (GetOrgID teamsUser)) = None) (GetTeams teamsUser)"
    by (simp add: teamsUser_def scenario_defs itoa_nat.simps)
  have h3: "?run = (fst ?run, snd ?run)" by simp
  have q: "Store_GetTeamsPermissions (store scenarioService)
             (teamsQuery scenarioDeps (GetOrgID teamsUser) [10, 30]) =
           ([(30, [\<lparr>Action = ''teams:write'', Scope = ''teams:id:30''\<rparr>])], None)"
    by (simp add: teamsQuery_def teamsUser_def scenario_defs)
  show ?thesis
    using getCachedTeamsPermissions_batches_misses [OF h1 h2 h3] q
    by (simp add: teamsQuery_def teamsUser_def scenario_defs itoa_nat.simps)
qed

lemma getCachedTeamsPermissions_cache_frame:
  assumes "\<forall>(t, ps) \<in> set (fst (Store_GetTeamsPermissions (store s)
                    (teamsQuery d (GetOrgID user) (teamMisses d user options st)))).
             GetTeamPermissionCacheKey d t (GetOrgID user) \<noteq> k"
  shows "cache (snd (getCachedTeamsPermissions d s user options st)) k = cache st k"
proof -
  obtain tp err where a:
    "Store_GetTeamsPermissions (store s)
       (teamsQuery d (GetOrgID user) (teamMisses d user options st)) = (tp, err)"
    by (cases "Store_GetTeamsPermissions (store s)
                 (teamsQuery d (GetOrgID user) (teamMisses d user options st))")
  with assms have "\<forall>(t, ps) \<in> set tp. GetTeamPermissionCacheKey d t (GetOrgID user) \<noteq> k"
    by simp
  then have "foldl (\<lambda>c (teamID, teamPermissions).
                      c(GetTeamPermissionCacheKey d teamID (GetOrgID user) \<mapsto>
                          (teamPermissions, cacheTTL)))
               (cache st) tp k = cache st k"
    by (rule foldl_upd_other)
  then show ?thesis
    using a by (simp add: getCachedTeamsPermissions_eq Let_def split: option.splits)
qed

text \<open>
  Claim C10. A cached team sub-query changes the cache only at keys of team ids that
  are entries of the Store's answer. So a team id of the principal that has no cache
  entry, and for which the Store never returns an entry (nor one of a team id with
  the same key), has no cache entry afterwards either, and the sub-query has made a
  Store call that asks for this team id; the same holds after any number of
  successive sub-queries, each of which makes one more Store call.
\<close>

theorem getCachedTeamsPermissions_absent_team_stays_cold:
  assumes "teamID \<in> set (GetTeams user)"
    and "cache st (GetTeamPermissionCacheKey d teamID (GetOrgID user)) = None"
    and "\<forall>q. \<forall>(t, ps) \<in> set (fst (Store_GetTeamsPermissions (store s) q)).
           GetTeamPermissionCacheKey d t (GetOrgID user) \<noteq>
           GetTeamPermissionCacheKey d teamID (GetOrgID user)"
  shows "(\<forall>k. (\<forall>(t, ps) \<in> set (fst (Store_GetTeamsPermissions (store s)
                    (teamsQuery d (GetOrgID user) (teamMisses d user options st)))).
                 GetTeamPermissionCacheKey d t (GetOrgID user) \<noteq> k) \<longrightarrow>
               cache (snd (getCachedTeamsPermissions d s user options st)) k = cache st k) \<and>
         cache (snd (getCachedTeamsPermissions d s user options st))
           (GetTeamPermissionCacheKey d teamID (GetOrgID user)) = None \<and>
         (\<exists>miss. teamID \<in> set miss \<and>
            calls (snd (getCachedTeamsPermissions d s user options st)) =
              calls st @ [CallGetTeamsPermissions (teamsQuery d (GetOrgID user) miss)]) \<and>
         (\<forall>n. cache (repeatTeams n d s user options st)
                 (GetTeamPermissionCacheKey d teamID (GetOrgID user)) = None \<and>
               length (calls (repeatTeams n d s user options st)) = length (calls st) + n)"
proof -
  have frame: "cache (snd (getCachedTeamsPermissions d s user options st0)) k = cache st0 k"
    if "\<forall>(t, ps) \<in> set (fst (Store_GetTeamsPermissions (store s)
                    (teamsQuery d (GetOrgID user) (teamMisses d user options st0)))).
          GetTeamPermissionCacheKey d t (GetOrgID user) \<noteq> k" for st0 k
    using that by (rule getCachedTeamsPermissions_cache_frame)
  have step: "cache (snd (getCachedTeamsPermissions d s user options st0))
                (GetTeamPermissionCacheKey d teamID (GetOrgID user)) = None \<and>
              teamID \<in> set (teamMisses d user options st0) \<and>
              calls (snd (getCachedTeamsPermissions d s user options st0)) =
                calls st0 @ [CallGetTeamsPermissions
                               (teamsQuery d (GetOrgID user) (teamMisses d user options st0))]"
    if c: "cache st0 (GetTeamPermissionCacheKey d teamID (GetOrgID user)) = None" for st0
  proof -
    have in_miss: "teamID \<in> set (teamMisses d user options st0)"
      using assms(1) c by (simp add: teamMisses_def)
    then have ne: "teamMisses d user options st0 \<noteq> []" by auto
    have "cache (snd (getCachedTeamsPermissions d s user options st0))
            (GetTeamPermissionCacheKey d teamID (GetOrgID user)) =
          cache st0 (GetTeamPermissionCacheKey d teamID (GetOrgID user))"
      using assms(3) by (intro frame) blast
    moreover have "calls (snd (getCachedTeamsPermissions d s user options st0)) =
                calls st0 @ [CallGetTeamsPermissions
                               (teamsQuery d (GetOrgID user) (teamMisses d user options st0))]"
      using ne by (auto simp: getCachedTeamsPermissions_eq Let_def split: prod.splits option.splits)
    ultimately show ?thesis using c in_miss by simp
  qed
  have iter: "cache (repeatTeams n d s user options st0)
                 (GetTeamPermissionCacheKey d teamID (GetOrgID user)) = None \<and>
               length (calls (repeatTeams n d s user options st0)) = length (calls st0) + n"
    if "cache st0 (GetTeamPermissionCacheKey d teamID (GetOrgID user)) = None" for n st0
    using that
  proof (induction n arbitrary: st0)
    case 0
    then show ?case by simp
  next
    case (Suc n)
    from step [OF Suc.prems] Suc.IH [of "snd (getCachedTeamsPermissions d s user options st0)"]
    show ?case by simp
  qed
  show ?thesis
    using frame [of st] step [OF assms(2)] iter [OF assms(2)] by blast
qed

lemma scenarioStore_team_entries:
  "(t, ps) \<in> set (fst (Store_GetTeamsPermissions scenarioStore q)) \<Longrightarrow> t = 20 \<or> t = 30"
  by (auto simp: scenarioStore_def scenarioTeam_def List.map_filter_def split: if_splits)

theorem getCachedTeamsPermissions_absent_team_stays_cold_witness:
  "cache (snd (getCachedTeamsPermissions scenarioDeps scenarioService scenarioUser
                 \<lparr>ReloadCache = False\<rparr> emptyState)) ''rbac-permissions-team-1-10'' = None \<and>
   calls (snd (getCachedTeamsPermissions scenarioDeps scenarioService scenarioUser
                 \<lparr>ReloadCache = False\<rparr> emptyState)) =
     [CallGetTeamsPermissions
        \<lparr>OrgID = 1, UserID = 0, Roles = [], TeamIDs = [10],
         RolePrefixes = [''managed:'', ''externalservice:'']\<rparr>] \<and>
   cache (repeatTeams 3 scenarioDeps scenarioService scenarioUser \<lparr>ReloadCache = False\<rparr>
            emptyState) ''rbac-permissions-team-1-10'' = None \<and>
   length (calls (repeatTeams 3 scenarioDeps scenarioService scenarioUser
                    \<lparr>ReloadCache = False\<rparr> emptyState)) = 3"
proof -
  have key: "GetTeamPermissionCacheKey scenarioDeps 10 (GetOrgID scenarioUser) =
             ''rbac-permissions-team-1-10''"
    by (simp add: scenario_defs itoa_nat.simps)
  have h1: "10 \<in> set (GetTeams scenarioUser)" by (simp add: scenarioUser_def)
  have h2: "cache emptyState (GetTeamPermissionCacheKey scenarioDeps 10 (GetOrgID scenarioUser)) =
            None"
    by (simp add: emptyState_def)
  have h3: "\<forall>q. \<forall>(t, ps) \<in> set (fst (Store_GetTeamsPermissions (store scenarioService) q)).
              GetTeamPermissionCacheKey scenarioDeps t (GetOrgID scenarioUser) \<noteq>
              GetTeamPermissionCacheKey scenarioDeps 10 (GetOrgID scenarioUser)"
  proof (intro allI ballI, clarify)
    fix q t ps
    assume "(t, ps) \<in> set (fst (Store_GetTeamsPermissions (store scenarioService) q))"
      and eq: "GetTeamPermissionCacheKey scenarioDeps t (GetOrgID scenarioUser) =
           GetTeamPermissionCacheKey scenarioDeps 10 (GetOrgID scenarioUser)"
    then have "t = 20 \<or> t = 30"
      using scenarioStore_team_entries [of t ps q] by (simp add: scenarioService_def)
    with eq show False
      by (auto simp: scenarioDeps_def scenarioUser_def FormatInt_def itoa_nat.simps)
  qed
  note main = getCachedTeamsPermissions_absent_team_stays_cold [OF h1 h2 h3,
      of "\<lparr>ReloadCache = False\<rparr>"]
  have first: "calls (snd (getCachedTeamsPermissions scenarioDeps scenarioService scenarioUser
                 \<lparr>ReloadCache = False\<rparr> emptyState)) =
     [CallGetTeamsPermissions
        \<lparr>OrgID = 1, UserID = 0, Roles = [], TeamIDs = [10],
         RolePrefixes = [''managed:'', ''externalservice:'']\<rparr>]"
    by (simp add: getCachedTeamsPermissions_eq teamMisses_def teamHits_def teamsQuery_def
          Let_def scenario_defs itoa_nat.simps)
  from main have "\<forall>n. cache (repeatTeams n scenarioDeps scenarioService scenarioUser
                             \<lparr>ReloadCache = False\<rparr> emptyState)
                       (GetTeamPermissionCacheKey scenarioDeps 10 (GetOrgID scenarioUser)) = None \<and>
                     length (calls (repeatTeams n scenarioDeps scenarioService scenarioUser
                                      \<lparr>ReloadCache = False\<rparr> emptyState)) =
                       length (calls emptyState) + n"
    by blast
  then have "cache (repeatTeams 3 scenarioDeps scenarioService scenarioUser
                             \<lparr>ReloadCache = False\<rparr> emptyState)
                       (GetTeamPermissionCacheKey scenarioDeps 10 (GetOrgID scenarioUser)) = None \<and>
                     length (calls (repeatTeams 3 scenarioDeps scenarioService scenarioUser
                                      \<lparr>ReloadCache = False\<rparr> emptyState)) =
                       length (calls emptyState) + 3"
    by (rule spec)
  moreover from main have "cache (snd (getCachedTeamsPermissions scenarioDeps scenarioService
                 scenarioUser \<lparr>ReloadCache = False\<rparr> emptyState))
           (GetTeamPermissionCacheKey scenarioDeps 10 (GetOrgID scenarioUser)) = None"
    by blast
  ultimately show ?thesis
    using first key by (simp add: emptyState_def)
qed

subsection \<open>Store errors\<close>










lemmas resolver_defs =
  GetUserPermissions_def getUserPermissions_def getCachedUserPermissions_def
  getCachedBasicRolesPermissions_def getCachedBasicRolePermissions_def
  getCachedUserDirectPermissions_def getCachedPermissions_def getBasicRolePermissions_def
  getUserDirectPermissions_def getCachedTeamsPermissions_def getTeamsPermissions_def
  store_GetUserPermissions_def store_GetBasicRolesPermissions_def
  store_GetTeamsPermissions_def Let_def


subsection \<open>Visibility of users in the bulk search\<close>

lemma Split_not_Nil: "Split s sep \<noteq> []"
  by (induction s) (auto split: list.splits)

lemma Split_no_sep: "sep \<notin> set s \<Longrightarrow> Split s sep = [s]"
  by (induction s) auto

lemma Split_append: "sep \<notin> set a \<Longrightarrow> Split (a @ sep # b) sep = a # Split b sep"
  by (induction a) auto

lemma Split_parts:
  "Split s sep = p # ps \<Longrightarrow>
     sep \<notin> set p \<and> (ps = [] \<longrightarrow> s = p) \<and> (ps \<noteq> [] \<longrightarrow> s = p @ sep # drop (Suc (length p)) s \<and>
     Split (drop (Suc (length p)) s) sep = ps)"
proof (induction s arbitrary: p ps)
  case Nil
  then show ?case by simp
next
  case (Cons c s)
  show ?case
  proof (cases "c = sep")
    case True
    with Cons.prems show ?thesis using Split_not_Nil [of s sep] by auto
  next
    case False
    obtain q qs where q: "Split s sep = q # qs"
      using Split_not_Nil [of s sep] by (cases "Split s sep") auto
    with Cons.prems False have p: "p = c # q" "ps = qs" by auto
    from Cons.IH [OF q] p False show ?thesis by auto
  qed
qed

lemma scopeNamesUser_form:
  "scopeNamesUser scope userID \<longleftrightarrow>
     (\<exists>kind attribute identifier.
        scope = kind @ '':'' @ attribute @ '':'' @ identifier \<and>
        CHR '':'' \<notin> set kind \<and> CHR '':'' \<notin> set attribute \<and> CHR '':'' \<notin> set identifier \<and>
        ParseInt identifier = (userID, None))"
proof
  assume "scopeNamesUser scope userID"
  then obtain k a i where s: "Split scope CHR '':'' = [k, a, i]"
    and p: "ParseInt i = (userID, None)"
    by (auto simp: scopeNamesUser_def split: list.splits)
  from Split_parts [OF s] have k: "CHR '':'' \<notin> set k"
    and s1: "scope = k @ CHR '':'' # drop (Suc (length k)) scope"
    and r1: "Split (drop (Suc (length k)) scope) CHR '':'' = [a, i]"
    by auto
  from Split_parts [OF r1] have a: "CHR '':'' \<notin> set a"
    and s2: "drop (Suc (length k)) scope =
             a @ CHR '':'' # drop (Suc (length a)) (drop (Suc (length k)) scope)"
    and r2: "Split (drop (Suc (length a)) (drop (Suc (length k)) scope)) CHR '':'' = [i]"
    by auto
  from Split_parts [OF r2] have i: "CHR '':'' \<notin> set i"
    and s3: "drop (Suc (length a)) (drop (Suc (length k)) scope) = i"
    by auto
  from s1 s2 s3 have "scope = k @ '':'' @ a @ '':'' @ i" by (metis append_Cons append_Nil)
  with k a i p show "\<exists>kind attribute identifier.
        scope = kind @ '':'' @ attribute @ '':'' @ identifier \<and>
        CHR '':'' \<notin> set kind \<and> CHR '':'' \<notin> set attribute \<and> CHR '':'' \<notin> set identifier \<and>
        ParseInt identifier = (userID, None)"
    by blast
next
  assume "\<exists>kind attribute identifier.
        scope = kind @ '':'' @ attribute @ '':'' @ identifier \<and>
        CHR '':'' \<notin> set kind \<and> CHR '':'' \<notin> set attribute \<and> CHR '':'' \<notin> set identifier \<and>
        ParseInt identifier = (userID, None)"
  then obtain k a i where "scope = k @ CHR '':'' # a @ CHR '':'' # i"
    and "CHR '':'' \<notin> set k" "CHR '':'' \<notin> set a" "CHR '':'' \<notin> set i"
    and "ParseInt i = (userID, None)"
    by auto
  then show "scopeNamesUser scope userID"
    by (simp add: scopeNamesUser_def Split_append Split_no_sep)
qed

lemma canViewScopes_iff:
  "canViewScopes scopes ids userID \<longleftrightarrow>
     (\<exists>scope \<in> set scopes. HasSuffix scope ''*'') \<or> ids userID \<or>
     (\<exists>scope \<in> set scopes. scopeNamesUser scope userID)"
proof (induction scopes arbitrary: ids)
  case Nil
  show ?case by simp
next
  case (Cons scope rest)
  show ?case
  proof (cases "HasSuffix scope ''*''")
    case True
    then show ?thesis by simp
  next
    case False
    show ?thesis
    proof (cases "length (Split scope CHR '':'') = 3")
      case len: False
      then have "\<not> scopeNamesUser scope userID"
        by (auto simp: scopeNamesUser_def split: list.splits)
      with False len Cons.IH show ?thesis by (simp add: Let_def)
    next
      case len: True
      then obtain k a i where s: "Split scope CHR '':'' = [k, a, i]"
        by (auto simp: length_Suc_conv numeral_3_eq_3)
      obtain v eo where p: "ParseInt i = (v, eo)" by (cases "ParseInt i")
      show ?thesis
      proof (cases eo)
        case None
        with False s p Cons.IH show ?thesis
          by (auto simp: Let_def scopeNamesUser_def)
      next
        case (Some e)
        with False s p Cons.IH show ?thesis
          by (auto simp: Let_def scopeNamesUser_def)
      qed
    qed
  qed
qed

lemma canView_iff_mayView: "canView d usr userID \<longleftrightarrow> mayView d usr userID"
  by (cases "GetPermissions usr")
     (auto simp: canView_def mayView_def canViewScopes_iff Let_def split: option.splits)

lemma mergeUsers_entry:
  "mergeUsers basicPermissions usersPermissions cv usersRoles res userID = Some perms \<Longrightarrow>
     res userID \<noteq> None \<or> cv userID"
proof (induction usersRoles arbitrary: res)
  case Nil
  then show ?case by simp
next
  case (Cons entry rest)
  obtain u rs where e: "entry = (u, rs)" by (cases entry)
  let ?perms = "(case map_of usersPermissions u of
                   Some dbPerms \<Rightarrow> mergeRoles basicPermissions rs [] @ dbPerms
                 | None \<Rightarrow> mergeRoles basicPermissions rs [])"
  show ?case
  proof (cases "cv u \<and> length ?perms > 0")
    case True
    with Cons.prems e
    have "mergeUsers basicPermissions usersPermissions cv rest (res(u \<mapsto> ?perms)) userID =
          Some perms"
      by (simp add: Let_def)
    from Cons.IH [OF this] True show ?thesis by (cases "userID = u") auto
  next
    case False
    with Cons.prems e
    have "mergeUsers basicPermissions usersPermissions cv rest res userID = Some perms"
      by (auto simp: Let_def split: if_splits)
    from Cons.IH [OF this] show ?thesis .
  qed
qed

lemma SearchUsersPermissions_bulk_entry:
  assumes "NamespacedID options = []"
    and "SearchUsersPermissions d s usr options st = ((res, err), st')"
    and "res userID = Some perms"
  shows "canView d usr userID"
proof -
  let ?options = "options\<lparr>opt_RolePrefixes := OSSRolesPrefixes d\<rparr>"
  obtain usersRoles e1 where a: "Store_GetUsersBasicRoles (store s) [] (GetOrgID usr) = (usersRoles, e1)"
    by (cases "Store_GetUsersBasicRoles (store s) [] (GetOrgID usr)")
  obtain usersPermissions e2 where
    b: "Store_SearchUsersPermissions (store s) (GetOrgID usr) ?options = (usersPermissions, e2)"
    by (cases "Store_SearchUsersPermissions (store s) (GetOrgID usr) ?options")
  from assms a b have "e1 = None \<and> e2 = None \<and>
      res = mergeUsers (filterBasicPermissions d s ?options) usersPermissions (canView d usr)
              usersRoles Map.empty"
    by (cases e1; cases e2)
       (auto simp: SearchUsersPermissions_def store_GetUsersBasicRoles_def
          store_SearchUsersPermissions_def Let_def)
  with assms(3) mergeUsers_entry [of "filterBasicPermissions d s ?options" usersPermissions
      "canView d usr" usersRoles Map.empty userID perms]
  show ?thesis by simp
qed

text \<open>
  Claim C2. In the bulk path (no namespaced id in the options) every user id in the
  result is one the requester may view: the requester holds the view action with a
  scope ending in \<open>*\<close> or with a three-part scope whose last part is the numeral of
  that id. Hence a requester without the view action gets the empty map; a requester
  whose scopes for the action do not end in \<open>*\<close> gets only ids its scopes name; a
  requester with a scope ending in \<open>*\<close> has no candidate filtered out; and a
  requester whose only scope is \<open>users:id:7\<close> gets no id but 7, whatever the Store
  returns.
\<close>

theorem SearchUsersPermissions_visibility:
  assumes "NamespacedID options = []"
    and "SearchUsersPermissions d s usr options st = ((res, err), st')"
  shows "(\<forall>userID \<in> dom res. mayView d usr userID) \<and>
         (map_of (GetPermissions usr) (ActionUsersPermissionsRead d) = None \<longrightarrow> res = Map.empty) \<and>
         (\<forall>scopes. map_of (GetPermissions usr) (ActionUsersPermissionsRead d) = Some scopes \<and>
                   (\<forall>scope \<in> set scopes. \<not> HasSuffix scope ''*'') \<longrightarrow>
                     dom res \<subseteq> {userID. \<exists>scope \<in> set scopes. scopeNamesUser scope userID}) \<and>
         (\<forall>scopes. map_of (GetPermissions usr) (ActionUsersPermissionsRead d) = Some scopes \<and>
                   (\<exists>scope \<in> set scopes. HasSuffix scope ''*'') \<longrightarrow>
                     (\<forall>userID. canView d usr userID)) \<and>
         (map_of (GetPermissions usr) (ActionUsersPermissionsRead d) = Some [''users:id:7''] \<longrightarrow>
            dom res \<subseteq> {7})"
proof -
  have visible: "mayView d usr userID" if "userID \<in> dom res" for userID
    using that SearchUsersPermissions_bulk_entry [OF assms] canView_iff_mayView by auto
  have none: "res = Map.empty"
    if "map_of (GetPermissions usr) (ActionUsersPermissionsRead d) = None"
  proof (rule ext)
    fix userID
    show "res userID = None"
    proof (cases "res userID")
      case (Some perms)
      then have "mayView d usr userID" using visible by auto
      with that show ?thesis by (simp add: mayView_def)
    qed simp
  qed
  have scoped: "dom res \<subseteq> {userID. \<exists>scope \<in> set scopes. scopeNamesUser scope userID}"
    if "map_of (GetPermissions usr) (ActionUsersPermissionsRead d) = Some scopes"
      and "\<forall>scope \<in> set scopes. \<not> HasSuffix scope ''*''" for scopes
    using that visible by (auto simp: mayView_def)
  have wild: "canView d usr userID"
    if "map_of (GetPermissions usr) (ActionUsersPermissionsRead d) = Some scopes"
      and "\<exists>scope \<in> set scopes. HasSuffix scope ''*''" for scopes userID
    using that by (auto simp: canView_iff_mayView mayView_def)
  have seven: "dom res \<subseteq> {7}"
    if "map_of (GetPermissions usr) (ActionUsersPermissionsRead d) = Some [''users:id:7'']"
  proof
    fix userID
    assume "userID \<in> dom res"
    then have "mayView d usr userID" by (rule visible)
    with that have "scopeNamesUser ''users:id:7'' userID"
      by (simp add: mayView_def HasSuffix_def)
    then show "userID \<in> {7}"
      by (simp add: scopeNamesUser_def ParseInt_def digit_of_def)
  qed
  from visible none scoped wild seven show ?thesis by blast
qed

theorem SearchUsersPermissions_visibility_witness:
  "fst (SearchUsersPermissions scenarioDeps scenarioService scenarioUser
          \<lparr>ActionPrefix = ''da'', opt_Action = [], opt_Scope = [], NamespacedID = [],
           opt_RolePrefixes = []\<rparr> emptyState) =
     ([7 \<mapsto> [\<lparr>Action = ''dashboards:read'', Scope = ''dashboards:*''\<rparr>,
               \<lparr>Action = ''dashboards:write'', Scope = ''dashboards:uid:abc''\<rparr>]], None) \<and>
   map_of (fst (Store_SearchUsersPermissions scenarioStore 1
                  \<lparr>ActionPrefix = ''da'', opt_Action = [], opt_Scope = [], NamespacedID = [],
                   opt_RolePrefixes = [''managed:'', ''externalservice:'']\<rparr>)) 8 =
     Some [\<lparr>Action = ''dashboards:write'', Scope = ''dashboards:uid:xyz''\<rparr>] \<and>
   dom (fst (fst (SearchUsersPermissions scenarioDeps scenarioService scenarioUser
          \<lparr>ActionPrefix = ''da'', opt_Action = [], opt_Scope = [], NamespacedID = [],
           opt_RolePrefixes = []\<rparr> emptyState))) \<subseteq> {7}"
proof -
  let ?options = "\<lparr>ActionPrefix = ''da'', opt_Action = [], opt_Scope = [], NamespacedID = [],
                   opt_RolePrefixes = []\<rparr>"
  let ?run = "SearchUsersPermissions scenarioDeps scenarioService scenarioUser ?options emptyState"
  have h1: "NamespacedID ?options = []" by simp
  have h2: "?run = ((fst (fst ?run), snd (fst ?run)), snd ?run)" by simp
  have g: "map_of (GetPermissions scenarioUser) (ActionUsersPermissionsRead scenarioDeps) =
           Some [''users:id:7'']"
    by (simp add: scenarioUser_def scenarioDeps_def)
  have r: "fst ?run =
     ([7 \<mapsto> [\<lparr>Action = ''dashboards:read'', Scope = ''dashboards:*''\<rparr>,
               \<lparr>Action = ''dashboards:write'', Scope = ''dashboards:uid:abc''\<rparr>]], None)"
    by (simp add: SearchUsersPermissions_def store_GetUsersBasicRoles_def
          store_SearchUsersPermissions_def filterBasicPermissions_def canView_def
          PermissionMatchesSearchOptions_def HasPrefix_def HasSuffix_def Let_def scenario_defs)
  from SearchUsersPermissions_visibility [OF h1 h2] g
  have "dom (fst (fst ?run)) \<subseteq> {7}" by blast
  with r show ?thesis by (simp add: scenarioStore_def)
qed

subsection \<open>Invalidation\<close>

lemma basicRolesLoop_warm:
  assumes "\<not> ReloadCache options"
    and "\<forall>role \<in> set rs. cache st (GetBasicRolePermissionCacheKey d role orgID) \<noteq> None"
  shows "basicRolesLoop d s orgID options rs acc st =
           ((acc @ concat (map (\<lambda>role. fst (the (cache st
                                  (GetBasicRolePermissionCacheKey d role orgID)))) rs), None), st)"
  using assms
  by (induction rs arbitrary: acc)
     (auto simp: getCachedBasicRolePermissions_def getCachedPermissions_def)

lemma getCachedTeamsPermissions_warm:
  assumes "\<not> ReloadCache options"
    and "\<forall>teamID \<in> set (GetTeams user).
           cache st (GetTeamPermissionCacheKey d teamID (GetOrgID user)) \<noteq> None"
  shows "getCachedTeamsPermissions d s user options st = ((teamHits d user options st, None), st)"
proof -
  from assms have "teamMisses d user options st = []"
    by (auto simp: teamMisses_def filter_empty_conv)
  then show ?thesis by (simp add: getCachedTeamsPermissions_eq Let_def)
qed

lemma ClearUserPermissionCache_cache:
  "cache (ClearUserPermissionCache d user st) k =
     (if k = GetPermissionCacheKey d user \<or> k = GetUserDirectPermissionCacheKey d user
      then None else cache st k)"
  by (simp add: ClearUserPermissionCache_def cache_Delete_def)

lemma ClearUserPermissionCache_calls:
  "calls (ClearUserPermissionCache d user st) = calls st"
  by (simp add: ClearUserPermissionCache_def cache_Delete_def)

text \<open>
  Claim C8, amended. \<open>ClearUserPermissionCache\<close> removes the entries under the
  principal's aggregate key and direct-permission key and changes no other key of the
  cache (nor the call log). If afterwards every basic role and every team of the
  principal still has its cache entry, then a cached resolution without
  \<open>ReloadCache\<close>, for a principal whose identifier resolves, makes exactly one Store
  call, the direct-permission query, and, when the Store answers it without error,
  stores the answer (with the shared-with-me permission appended under the
  nested-folders flag) under the direct-permission key.
\<close>

theorem ClearUserPermissionCache_then_one_round_trip:
  assumes "st1 = ClearUserPermissionCache d user st"
    and "\<not> ReloadCache options"
    and "\<forall>role \<in> set (GetOrgRoles user).
           cache st1 (GetBasicRolePermissionCacheKey d role (GetOrgID user)) \<noteq> None"
    and "\<forall>teamID \<in> set (GetTeams user).
           cache st1 (GetTeamPermissionCacheKey d teamID (GetOrgID user)) \<noteq> None"
    and "(if fst (GetNamespacedID user) = NamespaceUser d \<or>
             fst (GetNamespacedID user) = NamespaceServiceAccount d
          then ParseInt (snd (GetNamespacedID user)) else (0, None)) = (userID, None)"
    and "q = \<lparr>OrgID = GetOrgID user, UserID = userID, Roles = [], TeamIDs = [],
              RolePrefixes = OSSRolesPrefixes d\<rparr>"
  shows "(\<forall>k. cache st1 k =
            (if k = GetPermissionCacheKey d user \<or> k = GetUserDirectPermissionCacheKey d user
             then None else cache st k)) \<and>
         calls (snd (getCachedUserPermissions d s user options st1)) =
           calls st @ [CallGetUserPermissions q] \<and>
         (\<forall>permissions. Store_GetUserPermissions (store s) q = (permissions, None) \<longrightarrow>
            cache (snd (getCachedUserPermissions d s user options st1))
              (GetUserDirectPermissionCacheKey d user) =
              Some (if features s FlagNestedFolders
                    then permissions @ [SharedWithMeFolderPermission d] else permissions,
                    cacheTTL))"
proof -
  have frame: "\<forall>k. cache st1 k =
            (if k = GetPermissionCacheKey d user \<or> k = GetUserDirectPermissionCacheKey d user
             then None else cache st k)"
    using assms(1) by (simp add: ClearUserPermissionCache_cache)
  have c1: "calls st1 = calls st"
    using assms(1) by (simp add: ClearUserPermissionCache_calls)
  have b: "getCachedBasicRolesPermissions d s user options st1 =
             ((concat (map (\<lambda>role. fst (the (cache st1
                  (GetBasicRolePermissionCacheKey d role (GetOrgID user))))) (GetOrgRoles user)),
               None), st1)"
    using basicRolesLoop_warm [OF assms(2,3), of s "[]"]
    by (simp add: getCachedBasicRolesPermissions_def)
  have t: "getCachedTeamsPermissions d s user options st1 =
             ((teamHits d user options st1, None), st1)"
    using assms(2,4) by (rule getCachedTeamsPermissions_warm)
  have miss: "cache st1 (GetUserDirectPermissionCacheKey d user) = None"
    using frame by simp
  obtain ns ident where nsid: "GetNamespacedID user = (ns, ident)"
    by (cases "GetNamespacedID user")
  obtain permissions err where a: "Store_GetUserPermissions (store s) q = (permissions, err)"
    by (cases "Store_GetUserPermissions (store s) q")
  have "calls (snd (getCachedUserDirectPermissions d s user options st1)) =
          calls st @ [CallGetUserPermissions q] \<and>
        (err = None \<longrightarrow>
           cache (snd (getCachedUserDirectPermissions d s user options st1))
             (GetUserDirectPermissionCacheKey d user) =
             Some (if features s FlagNestedFolders
                   then permissions @ [SharedWithMeFolderPermission d] else permissions,
                   cacheTTL) \<and>
           snd (fst (getCachedUserDirectPermissions d s user options st1)) = None)"
    using assms(2,5,6) miss nsid a c1
    by (cases err)
       (auto simp: getCachedUserDirectPermissions_def getCachedPermissions_def
          getUserDirectPermissions_def store_GetUserPermissions_def log_call_def cache_Set_def)
  then show ?thesis
    using frame b t a
    by (auto simp: getCachedUserPermissions_def split: prod.splits option.splits)
qed

theorem ClearUserPermissionCache_then_one_round_trip_witness:
  "calls (snd (getCachedUserPermissions scenarioDeps scenarioService memberUser
                 \<lparr>ReloadCache = False\<rparr>
                 (ClearUserPermissionCache scenarioDeps memberUser warmState))) =
     [CallGetUserPermissions
        \<lparr>OrgID = 1, UserID = 42, Roles = [], TeamIDs = [],
         RolePrefixes = [''managed:'', ''externalservice:'']\<rparr>] \<and>
   cache (ClearUserPermissionCache scenarioDeps memberUser warmState)
     ''rbac-permissions-direct-1-user-42'' = None \<and>
   cache (snd (getCachedUserPermissions scenarioDeps scenarioService memberUser
                 \<lparr>ReloadCache = False\<rparr>
                 (ClearUserPermissionCache scenarioDeps memberUser warmState)))
     ''rbac-permissions-direct-1-user-42'' =
     Some ([\<lparr>Action = ''datasources:read'', Scope = ''datasources:*''\<rparr>,
            \<lparr>Action = ''folders:read'', Scope = ''folders:uid:sharedwithme''\<rparr>], 60000000000)"
proof -
  let ?st1 = "ClearUserPermissionCache scenarioDeps memberUser warmState"
  let ?q = "\<lparr>OrgID = 1, UserID = 42, Roles = [], TeamIDs = [],
             RolePrefixes = [''managed:'', ''externalservice:'']\<rparr>"
  have h2: "\<not> ReloadCache \<lparr>ReloadCache = False\<rparr>" by simp
  have h3: "\<forall>role \<in> set (GetOrgRoles memberUser).
              cache ?st1 (GetBasicRolePermissionCacheKey scenarioDeps role (GetOrgID memberUser)) \<noteq>
              None"
    by (simp add: ClearUserPermissionCache_def memberUser_def warmState_def scenario_defs
          itoa_nat.simps)
  have h4: "\<forall>teamID \<in> set (GetTeams memberUser).
              cache ?st1 (GetTeamPermissionCacheKey scenarioDeps teamID (GetOrgID memberUser)) \<noteq>
              None"
    by (simp add: ClearUserPermissionCache_def memberUser_def warmState_def scenario_defs
          itoa_nat.simps)
  have h5: "(if fst (GetNamespacedID memberUser) = NamespaceUser scenarioDeps \<or>
                fst (GetNamespacedID memberUser) = NamespaceServiceAccount scenarioDeps
             then ParseInt (snd (GetNamespacedID memberUser)) else (0, None)) = (42, None)"
    by (simp add: memberUser_def scenario_defs)
  have h6: "?q = \<lparr>OrgID = GetOrgID memberUser, UserID = 42, Roles = [], TeamIDs = [],
                  RolePrefixes = OSSRolesPrefixes scenarioDeps\<rparr>"
    by (simp add: memberUser_def scenario_defs)
  have a: "Store_GetUserPermissions (store scenarioService) ?q =
           ([\<lparr>Action = ''datasources:read'', Scope = ''datasources:*''\<rparr>], None)"
    by (simp add: scenario_defs)
  have k: "GetUserDirectPermissionCacheKey scenarioDeps memberUser =
           ''rbac-permissions-direct-1-user-42''"
    by (simp add: memberUser_def scenario_defs itoa_nat.simps)
  have f: "features scenarioService FlagNestedFolders" by (simp add: scenarioService_def)
  from ClearUserPermissionCache_then_one_round_trip [OF refl h2 h3 h4 h5 h6, of scenarioService]
    a k f
  show ?thesis by (simp add: warmState_def scenario_defs)
qed

theorem ClearUserPermissionCache_round_trips_counterexample:
  "cache (ClearUserPermissionCache scenarioDeps memberUser warmState)
     ''rbac-permissions-basic-role-1-Viewer'' =
     Some ([\<lparr>Action = ''dashboards:read'', Scope = ''dashboards:*''\<rparr>,
            \<lparr>Action = ''folders:read'', Scope = ''folders:uid:general''\<rparr>], 60000000000) \<and>
   cache (ClearUserPermissionCache scenarioDeps memberUser warmState)
     ''rbac-permissions-team-1-20'' =
     Some ([\<lparr>Action = ''teams:read'', Scope = ''teams:id:20''\<rparr>], 60000000000) \<and>
   calls (snd (getCachedUserPermissions scenarioDeps scenarioService memberUser
                 \<lparr>ReloadCache = True\<rparr>
                 (ClearUserPermissionCache scenarioDeps memberUser warmState))) =
     [CallGetBasicRolesPermissions
        \<lparr>OrgID = 1, UserID = 0, Roles = [''Viewer''], TeamIDs = [],
         RolePrefixes = [''managed:'', ''externalservice:'']\<rparr>,
      CallGetTeamsPermissions
        \<lparr>OrgID = 1, UserID = 0, Roles = [], TeamIDs = [20],
         RolePrefixes = [''managed:'', ''externalservice:'']\<rparr>,
      CallGetUserPermissions
        \<lparr>OrgID = 1, UserID = 42, Roles = [], TeamIDs = [],
         RolePrefixes = [''managed:'', ''externalservice:'']\<rparr>] \<and>
   fst (getCachedUserPermissions scenarioDeps scenarioService malformedUser
          \<lparr>ReloadCache = False\<rparr>
          (ClearUserPermissionCache scenarioDeps malformedUser warmState)) =
     ([], Some (NumError ''abc'')) \<and>
   calls (snd (getCachedUserPermissions scenarioDeps scenarioService malformedUser
                 \<lparr>ReloadCache = False\<rparr>
                 (ClearUserPermissionCache scenarioDeps malformedUser warmState))) = [] \<and>
   calls (snd (getCachedUserPermissions scenarioDeps directOutageService memberUser
                 \<lparr>ReloadCache = False\<rparr>
                 (ClearUserPermissionCache scenarioDeps memberUser warmState))) =
     [CallGetUserPermissions
        \<lparr>OrgID = 1, UserID = 42, Roles = [], TeamIDs = [],
         RolePrefixes = [''managed:'', ''externalservice:'']\<rparr>] \<and>
   cache (snd (getCachedUserPermissions scenarioDeps directOutageService memberUser
                 \<lparr>ReloadCache = False\<rparr>
                 (ClearUserPermissionCache scenarioDeps memberUser warmState)))
     ''rbac-permissions-direct-1-user-42'' = None"
  by (simp add: resolver_defs ClearUserPermissionCache_def memberUser_def malformedUser_def
        directOutageService_def warmState_def scenario_defs itoa_nat.simps)

subsection \<open>The cached and the uncached path\<close>













end
